theory Spec2Isabelle
  imports Complex_Main
begin

section \<open>Rows, parsed cells and typed columns\<close>

text \<open>
  \<^verbatim>\<open>src/server.js\<close> reads a CSV file into a list of row objects (\<^verbatim>\<open>parseCSV\<close>), hands the
  rows to a Python script that runs under pandas (\<^verbatim>\<open>analyzeData\<close>), and lays the script's
  result out as a PDF (\<^verbatim>\<open>generatePDF\<close>, \<^verbatim>\<open>createCorrelationHeatmap\<close>,
  \<^verbatim>\<open>getCorrelationColor\<close>).

  A row is a JavaScript object from column name to raw string; it is an association list in
  the object's property order. A dictionary of the script and an object of the result are
  association lists in the same way.

  The script delegates to pandas. Each pandas call of the script is a definition below that
  follows the library's documented behaviour, within these limits:
  \<^item> which strings pandas reads as a number is a parameter (a \<open>parser\<close>): it says for a
    non-empty string whether it is an integer, a float, a NaN or not a number. An integer
    is one that fits 64 bits signed; what pandas does with larger ones is not modelled;
  \<^item> a finite double is the real number it stands for, and rounding, overflow and
    underflow are not modelled; NaN is a value of its own. Infinities are outside the
    model.
  The same holds for the numbers of the JavaScript side, but for \<^verbatim>\<open>getCorrelationColor\<close>,
  whose two operations are rounded to binary64 (\<open>fl\<close> below).
\<close>

type_synonym row = "(string \<times> string) list"

datatype parsed = PInt int | PFloat real | PNaN | PFail

type_synonym parser = "string \<Rightarrow> parsed"

text \<open>
  A pandas column after \<^verbatim>\<open>pd.to_numeric\<close>: \<^verbatim>\<open>int64\<close> (no missing value possible),
  \<^verbatim>\<open>float64\<close> (NaN is \<open>None\<close>) or \<^verbatim>\<open>object\<close> (the raw strings; \<open>None\<close> is the NaN pandas
  puts where a row has no such key).
\<close>

datatype column = IntCol "int list" | FloatCol "real option list" | ObjCol "string option list"

type_synonym raw_frame = "(string \<times> string option list) list"

type_synonym frame = "(string \<times> column) list"

datatype error = ValueError | SyntaxError | TypeError | CsvError string

datatype pyval = PyNum real | PyNaN | PyStr string

datatype jsval = JNum real | JStr string

section \<open>The Python script of analyzeData\<close>

subsection \<open>pd.DataFrame(rows)\<close>

text \<open>Keys in the order of their first appearance (\<open>remdups\<close> alone keeps the last).\<close>

definition first_seen :: "'a list \<Rightarrow> 'a list" where
  "first_seen xs = rev (remdups (rev xs))"

definition columns_of :: "row list \<Rightarrow> string list" where
  "columns_of data = first_seen (concat (map (map fst) data))"

text \<open>The cells of column \<open>k\<close>, one per row; \<open>None\<close> where the row has no key \<open>k\<close>.\<close>

definition raw_column :: "row list \<Rightarrow> string \<Rightarrow> string option list" where
  "raw_column data k = map (\<lambda>r. map_of r k) data"

definition DataFrame :: "row list \<Rightarrow> raw_frame" where
  "DataFrame data = map (\<lambda>k. (k, raw_column data k)) (columns_of data)"

subsection \<open>pd.to_numeric(df[col], errors='ignore')\<close>

text \<open>
  An empty string and a missing cell become NaN before the parser is asked. One cell that
  does not parse raises inside pandas, and \<^verbatim>\<open>errors='ignore'\<close> then returns the column
  as it was. A column whose cells are all integers is \<^verbatim>\<open>int64\<close>, any other parsed column
  is \<^verbatim>\<open>float64\<close>.
\<close>

fun parse_cell :: "parser \<Rightarrow> string option \<Rightarrow> parsed" where
  "parse_cell P None = PNaN"
| "parse_cell P (Some s) = (if s = [] then PNaN else P s)"

fun is_int :: "parsed \<Rightarrow> bool" where
  "is_int (PInt i) = True"
| "is_int p = False"

fun as_int :: "parsed \<Rightarrow> int" where
  "as_int (PInt i) = i"
| "as_int p = 0"

fun as_float :: "parsed \<Rightarrow> real option" where
  "as_float (PInt i) = Some (real_of_int i)"
| "as_float (PFloat x) = Some x"
| "as_float p = None"

definition to_numeric :: "parser \<Rightarrow> string option list \<Rightarrow> column" where
  "to_numeric P vs =
     (let ps = map (parse_cell P) vs in
      if list_ex (\<lambda>p. p = PFail) ps then ObjCol vs
      else if list_all is_int ps then IntCol (map as_int ps)
      else FloatCol (map as_float ps))"

text \<open>The loop \<^verbatim>\<open>for col in df.columns: df[col] = pd.to_numeric(...)\<close>.\<close>

definition convert_columns :: "parser \<Rightarrow> raw_frame \<Rightarrow> frame" where
  "convert_columns P df = map (\<lambda>(k, vs). (k, to_numeric P vs)) df"

subsection \<open>dtypes, isnull().sum(), select_dtypes\<close>

fun dtype :: "column \<Rightarrow> string" where
  "dtype (IntCol xs) = ''int64''"
| "dtype (FloatCol xs) = ''float64''"
| "dtype (ObjCol xs) = ''object''"

fun is_number :: "column \<Rightarrow> bool" where
  "is_number (ObjCol xs) = False"
| "is_number c = True"

fun isnull_sum :: "column \<Rightarrow> nat" where
  "isnull_sum (IntCol xs) = 0"
| "isnull_sum (FloatCol xs) = length (filter (\<lambda>v. v = None) xs)"
| "isnull_sum (ObjCol xs) = length (filter (\<lambda>v. v = None) xs)"

definition select_number :: "frame \<Rightarrow> frame" where
  "select_number df = filter (\<lambda>(k, c). is_number c) df"

subsection \<open>describe()\<close>

fun somes :: "'a option list \<Rightarrow> 'a list" where
  "somes [] = []"
| "somes (None # xs) = somes xs"
| "somes (Some x # xs) = x # somes xs"

fun float_cells :: "column \<Rightarrow> real option list" where
  "float_cells (IntCol xs) = map (\<lambda>i. Some (real_of_int i)) xs"
| "float_cells (FloatCol xs) = xs"
| "float_cells (ObjCol xs) = []"

fun obj_cells :: "column \<Rightarrow> string option list" where
  "obj_cells (ObjCol xs) = xs"
| "obj_cells c = []"

definition mean :: "real list \<Rightarrow> real" where
  "mean xs = sum_list xs / real (length xs)"

definition std :: "real list \<Rightarrow> real" where
  "std xs = sqrt (sum_list (map (\<lambda>x. (x - mean xs)\<^sup>2) xs) / real (length xs - 1))"

text \<open>
  The k-th quartile with linear interpolation: position \<open>(n - 1) * k / 4\<close> in the sorted
  values.
\<close>

definition quartile :: "nat \<Rightarrow> real list \<Rightarrow> real" where
  "quartile k xs =
     (let s = sort xs; h = (length xs - 1) * k; lo = h div 4; r = h mod 4 in
      if r = 0 then s ! lo else s ! lo + (real r / 4) * (s ! (lo + 1) - s ! lo))"

definition or_nan :: "bool \<Rightarrow> real \<Rightarrow> pyval" where
  "or_nan undefined_here x = (if undefined_here then PyNaN else PyNum x)"

definition describe_numeric :: "real list \<Rightarrow> (string \<times> pyval) list" where
  "describe_numeric xs =
     [(''count'', PyNum (real (length xs))),
      (''mean'', or_nan (xs = []) (mean xs)),
      (''std'', or_nan (length xs \<le> 1) (std xs)),
      (''min'', or_nan (xs = []) (hd (sort xs))),
      (''25%'', or_nan (xs = []) (quartile 1 xs)),
      (''50%'', or_nan (xs = []) (quartile 2 xs)),
      (''75%'', or_nan (xs = []) (quartile 3 xs)),
      (''max'', or_nan (xs = []) (last (sort xs)))]"

text \<open>
  For a column of strings: the number of values, of distinct values, a most frequent
  value and its frequency (pandas leaves the choice among equally frequent values open;
  the first one seen is taken here).
\<close>

definition describe_object :: "string option list \<Rightarrow> (string \<times> pyval) list" where
  "describe_object cells =
     (let vals = somes cells;
          freq = fold max (map (count_list vals) vals) 0 in
      [(''count'', PyNum (real (length vals))),
       (''unique'', PyNum (real (length (remdups vals)))),
       (''top'', case find (\<lambda>v. count_list vals v = freq) vals of
                   None \<Rightarrow> PyNaN | Some v \<Rightarrow> PyStr v),
       (''freq'', or_nan (vals = []) (real freq))])"

text \<open>
  \<^verbatim>\<open>df.describe()\<close> with no arguments: it raises on a frame without columns; it keeps the
  numeric columns when there is one, and describes every column otherwise.
\<close>

definition describe :: "frame \<Rightarrow> error + (string \<times> (string \<times> pyval) list) list" where
  "describe df =
     (if df = [] then Inl ValueError
      else if select_number df = []
        then Inr (map (\<lambda>(k, c). (k, describe_object (obj_cells c))) df)
        else Inr (map (\<lambda>(k, c). (k, describe_numeric (somes (float_cells c)))) (select_number df)))"

subsection \<open>corr()\<close>

fun complete_pairs :: "real option list \<Rightarrow> real option list \<Rightarrow> (real \<times> real) list" where
  "complete_pairs (Some x # xs) (Some y # ys) = (x, y) # complete_pairs xs ys"
| "complete_pairs (x # xs) (y # ys) = complete_pairs xs ys"
| "complete_pairs xs ys = []"

text \<open>
  Pearson's coefficient over the rows where both columns have a value; NaN when there is
  no such row or when the divisor is zero.
\<close>

definition pearson :: "real option list \<Rightarrow> real option list \<Rightarrow> pyval" where
  "pearson xs ys =
     (let ps = complete_pairs xs ys;
          mx = mean (map fst ps); my = mean (map snd ps);
          ssqdx = sum_list (map (\<lambda>(x, y). (x - mx)\<^sup>2) ps);
          ssqdy = sum_list (map (\<lambda>(x, y). (y - my)\<^sup>2) ps);
          covxy = sum_list (map (\<lambda>(x, y). (x - mx) * (y - my)) ps);
          divisor = sqrt (ssqdx * ssqdy) in
      if ps = [] then PyNaN
      else if divisor \<noteq> 0 then PyNum (covxy / divisor) else PyNaN)"

definition corr :: "frame \<Rightarrow> (string \<times> (string \<times> pyval) list) list" where
  "corr df =
     map (\<lambda>(k1, c1). (k1, map (\<lambda>(k2, c2). (k2, pearson (float_cells c1) (float_cells c2))) df)) df"

subsection \<open>The script\<close>

record py_result =
  py_summary :: "(string \<times> (string \<times> pyval) list) list"
  py_column_types :: "(string \<times> string) list"
  py_missing_values :: "(string \<times> nat) list"
  py_correlations :: "(string \<times> (string \<times> pyval) list) list"

definition run_python :: "parser \<Rightarrow> row list \<Rightarrow> error + py_result" where
  "run_python P data =
     (let df = convert_columns P (DataFrame data) in
      case describe df of
        Inl e \<Rightarrow> Inl e
      | Inr summary \<Rightarrow>
          let numeric_columns = select_number df in
          Inr \<lparr> py_summary = summary,
                py_column_types = map (\<lambda>(k, c). (k, dtype c)) df,
                py_missing_values = map (\<lambda>(k, c). (k, isnull_sum c)) df,
                py_correlations = (if length numeric_columns > 1 then corr numeric_columns else []) \<rparr>)"

text \<open>The names of the columns \<^verbatim>\<open>select_dtypes(include=[np.number])\<close> keeps.\<close>

definition numeric_columns :: "parser \<Rightarrow> row list \<Rightarrow> string list" where
  "numeric_columns P data = map fst (select_number (convert_columns P (DataFrame data)))"

section \<open>analyzeData: json.dumps in Python, JSON.parse in JavaScript\<close>

text \<open>
  \<^verbatim>\<open>json.dumps\<close> writes a NaN as the token \<^verbatim>\<open>NaN\<close>, which \<^verbatim>\<open>JSON.parse\<close> rejects with a
  SyntaxError; \<^verbatim>\<open>analyzeData\<close> logs the error and throws it again.
\<close>

record analysis =
  summary :: "(string \<times> (string \<times> jsval) list) list"
  column_types :: "(string \<times> string) list"
  missing_values :: "(string \<times> nat) list"
  correlations :: "(string \<times> (string \<times> real) list) list"

fun json_val :: "pyval \<Rightarrow> jsval option" where
  "json_val (PyNum x) = Some (JNum x)"
| "json_val PyNaN = None"
| "json_val (PyStr s) = Some (JStr s)"

fun json_num :: "pyval \<Rightarrow> real option" where
  "json_num (PyNum x) = Some x"
| "json_num v = None"

fun all_some :: "'a option list \<Rightarrow> 'a list option" where
  "all_some [] = Some []"
| "all_some (None # xs) = None"
| "all_some (Some x # xs) = (case all_some xs of None \<Rightarrow> None | Some ys \<Rightarrow> Some (x # ys))"

definition json_dict :: "('v \<Rightarrow> 'w option) \<Rightarrow> (string \<times> 'v) list \<Rightarrow> (string \<times> 'w) list option" where
  "json_dict f kvs = all_some (map (\<lambda>(k, v). map_option (\<lambda>w. (k, w)) (f v)) kvs)"

definition json_roundtrip :: "py_result \<Rightarrow> error + analysis" where
  "json_roundtrip r =
     (case (json_dict (json_dict json_val) (py_summary r),
            json_dict (json_dict json_num) (py_correlations r)) of
        (Some s, Some c) \<Rightarrow>
          Inr \<lparr> summary = s, column_types = py_column_types r,
                missing_values = py_missing_values r, correlations = c \<rparr>
      | _ \<Rightarrow> Inl SyntaxError)"

definition analyzeData :: "parser \<Rightarrow> row list \<Rightarrow> error + analysis" where
  "analyzeData P data =
     (case run_python P data of Inl e \<Rightarrow> Inl e | Inr r \<Rightarrow> json_roundtrip r)"

text \<open>
  A parser for running examples: it reads a string of one to eighteen decimal digits as
  an integer and nothing else, which pandas does as well.
\<close>

definition digit_value :: "char \<Rightarrow> nat" where
  "digit_value c = of_char c - 48"

definition is_digit :: "char \<Rightarrow> bool" where
  "is_digit c = (48 \<le> (of_char c :: nat) \<and> (of_char c :: nat) \<le> 57)"

definition digits_parser :: parser where
  "digits_parser s =
     (if s \<noteq> [] \<and> length s \<le> 18 \<and> list_all is_digit s
      then PInt (int (fold (\<lambda>c n. 10 * n + digit_value c) s 0))
      else PFail)"

section \<open>Numbers as text\<close>

definition digit_char :: "nat \<Rightarrow> char" where
  "digit_char d = ''0123456789'' ! d"

fun show_nat :: "nat \<Rightarrow> string" where
  "show_nat n = (if n < 10 then [digit_char n] else show_nat (n div 10) @ [digit_char (n mod 10)])"

definition show_int :: "int \<Rightarrow> string" where
  "show_int i = (if i < 0 then ''-'' @ show_nat (nat (- i)) else show_nat (nat i))"

text \<open>
  \<^verbatim>\<open>Number.prototype.toString\<close> of a number from \<open>10\<^sup>2\<^sup>1\<close> on is in exponent notation: the
  digits \<open>s\<close> of the shortest decimal that reads back as the same double, a point after
  the first digit when there are more, then \<^verbatim>\<open>e+\<close> and the exponent. Which digits and
  exponent those are depends on the double's neighbours and is a parameter.
\<close>

type_synonym shortest = "real \<Rightarrow> nat \<times> nat"

definition toString_large :: "shortest \<Rightarrow> real \<Rightarrow> string" where
  "toString_large sd x =
     (let (s, e) = sd x; ds = show_nat s in
      (if length ds = 1 then ds else hd ds # ''.'' @ tl ds) @ ''e+'' @ show_nat e)"

text \<open>
  \<^verbatim>\<open>x.toFixed(2)\<close>: the sign, then either the exponent notation (from \<open>10\<^sup>2\<^sup>1\<close> on) or the
  integer \<open>n\<close> nearest to \<open>100 * |x|\<close> (the larger one of two) with a point before its
  last two digits.
\<close>

definition hundredths :: "real \<Rightarrow> nat" where
  "hundredths x = nat \<lfloor>\<bar>x\<bar> * 100 + 1 / 2\<rfloor>"

definition toFixed2 :: "shortest \<Rightarrow> real \<Rightarrow> string" where
  "toFixed2 sd x =
     (if x < 0 then ''-'' else []) @
     (if 10 ^ 21 \<le> \<bar>x\<bar> then toString_large sd \<bar>x\<bar>
      else let n = hundredths x in
        show_nat (n div 100) @ ''.'' @ [digit_char (n mod 100 div 10), digit_char (n mod 10)])"

text \<open>A string of digits with exactly two decimals: an optional minus, digits, a point, two digits.\<close>

definition two_decimals :: "string \<Rightarrow> bool" where
  "two_decimals s =
     (case rev s of
        d2 # d1 # dot # body \<Rightarrow>
          dot = CHR ''.'' \<and> is_digit d1 \<and> is_digit d2 \<and>
          (let ds = (if body \<noteq> [] \<and> last body = CHR ''-'' then butlast body else body)
           in ds \<noteq> [] \<and> list_all is_digit ds)
      | _ \<Rightarrow> False)"

section \<open>getCorrelationColor and createCorrelationHeatmap\<close>

text \<open>
  \<^verbatim>\<open>getCorrelationColor\<close> computes in binary64, and \<^verbatim>\<open>Math.floor\<close> shows the rounding: at the
  double nearest to 0.2 the product \<^verbatim>\<open>255 * (1 - 0.2)\<close> is the double 204, while the exact
  product is below 204. So the two operations are rounded here: \<open>fl\<close> is rounding to the
  nearest number with a 53-bit significand, ties to the even one (the exponent range of
  binary64 is not modelled: for a coefficient in \<open>[-1, 1]\<close> that is a double, both results
  are zero or normal).
\<close>

definition round_even :: "real \<Rightarrow> int" where
  "round_even y =
     (let f = \<lfloor>y\<rfloor>; d = y - of_int f in
      if d < 1 / 2 then f else if 1 / 2 < d then f + 1 else if even f then f else f + 1)"

text \<open>The exponent \<open>e\<close> with \<open>2\<^sup>e \<le> |x| < 2\<^sup>e\<^sup>+\<^sup>1\<close>, and the unit in the last place there.\<close>

definition binade :: "real \<Rightarrow> int" where
  "binade x = \<lfloor>log 2 \<bar>x\<bar>\<rfloor>"

definition ulp :: "real \<Rightarrow> real" where
  "ulp x = 2 powr (of_int (binade x) - 52)"

definition fl :: "real \<Rightarrow> real" where
  "fl x = (if x = 0 then 0 else ulp x * of_int (round_even (x / ulp x)))"

text \<open>
  \<^verbatim>\<open>Math.floor(255 * (1 - Math.abs(value)))\<close> for red and green, \<^verbatim>\<open>Math.floor(255)\<close> for
  blue.
\<close>

definition channels :: "real \<Rightarrow> int \<times> int \<times> int" where
  "channels v =
     (\<lfloor>fl (255 * fl (1 - \<bar>v\<bar>))\<rfloor>, \<lfloor>fl (255 * fl (1 - \<bar>v\<bar>))\<rfloor>, \<lfloor>255 :: real\<rfloor>)"

definition getCorrelationColor :: "real \<Rightarrow> string" where
  "getCorrelationColor v =
     (let (r, g, b) = channels v in
      ''rgb('' @ show_int r @ '','' @ show_int g @ '','' @ show_int b @ '')'')"

text \<open>
  The 2D context: its drawing state, the states put aside by \<^verbatim>\<open>save\<close>, and what has been
  drawn so far. Every drawing keeps the state it was drawn with.
\<close>

datatype xform = Translate real real | Rotate real

record style =
  fillStyle :: string
  font :: string
  textAlign :: string
  textBaseline :: string
  transforms :: "xform list"

datatype drawing = FillRect style real real real real | FillText style string real real

record ctx =
  current :: style
  saved :: "style list"
  drawn :: "drawing list"

definition getContext :: ctx where
  "getContext =
     \<lparr> current = \<lparr> fillStyle = ''#000000'', font = ''10px sans-serif'', textAlign = ''start'',
                     textBaseline = ''alphabetic'', transforms = [] \<rparr>,
       saved = [], drawn = [] \<rparr>"

definition fillRect :: "real \<Rightarrow> real \<Rightarrow> real \<Rightarrow> real \<Rightarrow> ctx \<Rightarrow> ctx" where
  "fillRect x y w h c = c\<lparr> drawn := drawn c @ [FillRect (current c) x y w h] \<rparr>"

definition fillText :: "string \<Rightarrow> real \<Rightarrow> real \<Rightarrow> ctx \<Rightarrow> ctx" where
  "fillText s x y c = c\<lparr> drawn := drawn c @ [FillText (current c) s x y] \<rparr>"

definition save :: "ctx \<Rightarrow> ctx" where
  "save c = c\<lparr> saved := current c # saved c \<rparr>"

definition restore :: "ctx \<Rightarrow> ctx" where
  "restore c = (case saved c of [] \<Rightarrow> c | s # ss \<Rightarrow> c\<lparr> current := s, saved := ss \<rparr>)"

definition transform :: "xform \<Rightarrow> ctx \<Rightarrow> ctx" where
  "transform t c = c\<lparr> current := (current c)\<lparr> transforms := transforms (current c) @ [t] \<rparr> \<rparr>"

text \<open>
  \<^verbatim>\<open>Math.min(500 / columns.length, 50)\<close>; with no column the quotient is JavaScript's
  \<^verbatim>\<open>Infinity\<close> and the minimum is 50.
\<close>

definition cellSize :: "nat \<Rightarrow> real" where
  "cellSize n = (if n = 0 then 50 else min (500 / real n) 50)"

definition lookup2 :: "(string \<times> (string \<times> real) list) list \<Rightarrow> string \<Rightarrow> string \<Rightarrow> real option" where
  "lookup2 m a b = (case map_of m a of None \<Rightarrow> None | Some inner \<Rightarrow> map_of inner b)"

fun forEach :: "('a \<Rightarrow> 's \<Rightarrow> error + 's) \<Rightarrow> 'a list \<Rightarrow> 's \<Rightarrow> error + 's" where
  "forEach f [] s = Inr s"
| "forEach f (x # xs) s = (case f x s of Inl e \<Rightarrow> Inl e | Inr s' \<Rightarrow> forEach f xs s')"

text \<open>
  The body of the inner \<^verbatim>\<open>forEach\<close>. A coefficient that is not in the matrix is
  \<^verbatim>\<open>undefined\<close>, and \<^verbatim>\<open>undefined.toFixed\<close> throws a TypeError.
\<close>

definition draw_cell ::
  "shortest \<Rightarrow> (string \<times> (string \<times> real) list) list \<Rightarrow> real \<Rightarrow> nat \<times> string \<Rightarrow> nat \<times> string \<Rightarrow> ctx \<Rightarrow> error + ctx" where
  "draw_cell sd corrs cell = (\<lambda>(i, col1) (j, col2) c.
     case lookup2 corrs col1 col2 of
       None \<Rightarrow> Inl TypeError
     | Some v \<Rightarrow>
         let xOffset = 80; yOffset = 50;
             c1 = c\<lparr> current := (current c)\<lparr> fillStyle := getCorrelationColor v \<rparr> \<rparr>;
             c2 = fillRect (xOffset + real i * cell) (yOffset + real j * cell) cell cell c1;
             c3 = c2\<lparr> current := (current c2)\<lparr> fillStyle := ''black'', font := ''10px Arial'',
                       textAlign := ''center'', textBaseline := ''middle'' \<rparr> \<rparr>
         in Inr (fillText (toFixed2 sd v) (xOffset + (real i + 1 / 2) * cell)
                   (yOffset + (real j + 1 / 2) * cell) c3))"

definition draw_label :: "real \<Rightarrow> nat \<times> string \<Rightarrow> ctx \<Rightarrow> ctx" where
  "draw_label cell = (\<lambda>(i, col) c.
     let xOffset = 80; yOffset = 50;
         c1 = fillText col (xOffset - 5) (yOffset + (real i + 1 / 2) * cell) c;
         c2 = save c1;
         c3 = transform (Translate (xOffset + (real i + 1 / 2) * cell) (yOffset - 5)) c2;
         c4 = transform (Rotate (- pi / 2)) c3;
         c5 = fillText col 0 0 c4
     in restore c5)"

definition createCorrelationHeatmap ::
  "shortest \<Rightarrow> (string \<times> (string \<times> real) list) list \<Rightarrow> error + drawing list" where
  "createCorrelationHeatmap sd corrs =
     (let columns = map fst corrs;
          cell = cellSize (length columns);
          cols = enumerate 0 columns in
      case forEach (\<lambda>ic1. forEach (\<lambda>jc2. draw_cell sd corrs cell ic1 jc2) cols) cols getContext of
        Inl e \<Rightarrow> Inl e
      | Inr c \<Rightarrow>
          let c' = c\<lparr> current := (current c)\<lparr> fillStyle := ''black'', font := ''12px Arial'',
                        textAlign := ''right'', textBaseline := ''middle'' \<rparr> \<rparr>
          in Inr (drawn (fold (draw_label cell) cols c')))"

section \<open>generatePDF\<close>

text \<open>
  The document is the list of what was written to it, in order; the state of the function
  is the document together with \<^verbatim>\<open>yOffset\<close>.
\<close>

datatype pdfop =
    SetFontSize nat
  | DrawText string nat nat bool
  | AddImage "drawing list" nat nat nat nat

type_synonym pdf_state = "pdfop list \<times> nat"

definition format_stat :: "shortest \<Rightarrow> jsval \<Rightarrow> string" where
  "format_stat sd v = (case v of JNum x \<Rightarrow> toFixed2 sd x | JStr s \<Rightarrow> s)"

definition stat_line :: "shortest \<Rightarrow> string \<times> jsval \<Rightarrow> pdf_state \<Rightarrow> pdf_state" where
  "stat_line sd = (\<lambda>(stat, v) (doc, y).
     (doc @ [DrawText (''  '' @ stat @ '': '' @ format_stat sd v) 10 y False], y + 5))"

definition summary_entry :: "shortest \<Rightarrow> string \<times> (string \<times> jsval) list \<Rightarrow> pdf_state \<Rightarrow> pdf_state" where
  "summary_entry sd = (\<lambda>(column, stats) (doc, y).
     let (doc', y') = fold (stat_line sd) stats (doc @ [DrawText (column @ '':'') 10 y False], y + 5)
     in (doc', y' + 5))"

definition add_title :: "pdf_state \<Rightarrow> pdf_state" where
  "add_title = (\<lambda>(doc, y).
     (doc @ [SetFontSize 20, DrawText ''Data Analysis Report'' 105 y True], y + 15))"

definition add_summary :: "shortest \<Rightarrow> analysis \<Rightarrow> pdf_state \<Rightarrow> pdf_state" where
  "add_summary sd a = (\<lambda>(doc, y).
     fold (summary_entry sd) (summary a)
       (doc @ [SetFontSize 16, DrawText ''Summary Statistics'' 10 y False, SetFontSize 12], y + 10))"

definition add_column_types :: "analysis \<Rightarrow> pdf_state \<Rightarrow> pdf_state" where
  "add_column_types a = (\<lambda>(doc, y).
     fold (\<lambda>(column, type) (doc, y). (doc @ [DrawText (column @ '': '' @ type) 10 y False], y + 5))
       (column_types a)
       (doc @ [SetFontSize 16, DrawText ''Column Types'' 10 (y + 10) False, SetFontSize 12], y + 20))"

definition add_missing_values :: "analysis \<Rightarrow> pdf_state \<Rightarrow> pdf_state" where
  "add_missing_values a = (\<lambda>(doc, y).
     fold (\<lambda>(column, count) (doc, y). (doc @ [DrawText (column @ '': '' @ show_nat count) 10 y False], y + 5))
       (missing_values a)
       (doc @ [SetFontSize 16, DrawText ''Missing Values'' 10 (y + 10) False, SetFontSize 12], y + 20))"

definition add_heatmap :: "shortest \<Rightarrow> analysis \<Rightarrow> pdf_state \<Rightarrow> error + pdf_state" where
  "add_heatmap sd a = (\<lambda>(doc, y).
     if correlations a \<noteq> [] then
       (case createCorrelationHeatmap sd (correlations a) of
          Inl e \<Rightarrow> Inl e
        | Inr heatmapCanvas \<Rightarrow>
            Inr (doc @ [SetFontSize 16, DrawText ''Correlation Heatmap'' 10 (y + 10) False,
                        AddImage heatmapCanvas 10 (y + 20) 190 100], y + 20))
     else Inr (doc, y))"

definition generatePDF :: "shortest \<Rightarrow> analysis \<Rightarrow> error + pdfop list" where
  "generatePDF sd a =
     (case add_heatmap sd a
             (add_missing_values a (add_column_types a (add_summary sd a (add_title ([], 10))))) of
        Inl e \<Rightarrow> Inl e
      | Inr (doc, y) \<Rightarrow> Inr doc)"

text \<open>
  The headings of a document: the texts written while the font size is 16 or more (the
  title at 20, a section heading at 16; every other line is written at 12).
\<close>

fun headings :: "nat \<Rightarrow> pdfop list \<Rightarrow> string list" where
  "headings sz [] = []"
| "headings sz (SetFontSize n # ops) = headings n ops"
| "headings sz (DrawText s x y centered # ops) =
     (if 16 \<le> sz then s # headings sz ops else headings sz ops)"
| "headings sz (AddImage img x y w h # ops) = headings sz ops"

text \<open>All the texts of a document, in the order they were written.\<close>

fun texts :: "pdfop list \<Rightarrow> string list" where
  "texts [] = []"
| "texts (DrawText s x y centered # ops) = s # texts ops"
| "texts (SetFontSize n # ops) = texts ops"
| "texts (AddImage img x y w h # ops) = texts ops"

fun images :: "pdfop list \<Rightarrow> drawing list list" where
  "images [] = []"
| "images (AddImage img x y w h # ops) = img # images ops"
| "images (DrawText s x y centered # ops) = images ops"
| "images (SetFontSize n # ops) = images ops"

text \<open>
  The lines a loop of \<^verbatim>\<open>generatePDF\<close> writes: left-aligned at x = 10, five units apart.
  The summary loop writes, per column, the column name and one line per statistic, and
  leaves five more units before the next column.
\<close>

fun lines :: "string list \<Rightarrow> nat \<Rightarrow> pdfop list" where
  "lines [] y = []"
| "lines (s # ss) y = DrawText s 10 y False # lines ss (y + 5)"

definition stat_text :: "shortest \<Rightarrow> string \<times> jsval \<Rightarrow> string" where
  "stat_text sd = (\<lambda>(stat, v). ''  '' @ stat @ '': '' @ format_stat sd v)"

definition entry_texts :: "shortest \<Rightarrow> string \<times> (string \<times> jsval) list \<Rightarrow> string list" where
  "entry_texts sd = (\<lambda>(column, stats). (column @ '':'') # map (stat_text sd) stats)"

fun entries :: "shortest \<Rightarrow> (string \<times> (string \<times> jsval) list) list \<Rightarrow> nat \<Rightarrow> pdfop list" where
  "entries sd [] y = []"
| "entries sd (e # es) y =
     lines (entry_texts sd e) y @ entries sd es (y + 5 * length (entry_texts sd e) + 5)"

fun entries_end :: "(string \<times> (string \<times> jsval) list) list \<Rightarrow> nat \<Rightarrow> nat" where
  "entries_end [] y = y"
| "entries_end (e # es) y = entries_end es (y + 5 * length (snd e) + 10)"

text \<open>
  What the inner \<^verbatim>\<open>forEach\<close> body of \<^verbatim>\<open>createCorrelationHeatmap\<close> leaves on the canvas for the
  cell of columns \<open>col1\<close> (number \<open>i\<close>) and \<open>col2\<close> (number \<open>j\<close>): a rectangle in the colour of
  the coefficient, then the coefficient as text in the style the body sets.
\<close>

definition cell_text_style :: style where
  "cell_text_style =
     \<lparr> fillStyle = ''black'', font = ''10px Arial'', textAlign = ''center'',
       textBaseline = ''middle'', transforms = [] \<rparr>"

definition cell_block ::
  "shortest \<Rightarrow> (string \<times> (string \<times> real) list) list \<Rightarrow> real \<Rightarrow> nat \<times> string \<Rightarrow> nat \<times> string \<Rightarrow> drawing list \<Rightarrow> bool" where
  "cell_block sd corrs cell = (\<lambda>(i, col1) (j, col2) b.
     \<exists>v st. lookup2 corrs col1 col2 = Some v
       \<and> fillStyle st = getCorrelationColor v \<and> transforms st = []
       \<and> b = [FillRect st (80 + real i * cell) (50 + real j * cell) cell cell,
              FillText cell_text_style (toFixed2 sd v)
                (80 + real i * cell + cell / 2) (50 + real j * cell + cell / 2)])"

text \<open>
  A square matrix: every row has the keys of the matrix itself, in the same order (what
  \<^verbatim>\<open>corr().to_dict()\<close> produces).
\<close>

definition square_matrix :: "(string \<times> (string \<times> 'v) list) list \<Rightarrow> bool" where
  "square_matrix m = list_all (\<lambda>(k, inner). map fst inner = map fst m) m"

text \<open>The state of \<^verbatim>\<open>generatePDF\<close> when it reaches the heatmap block.\<close>

definition report_body :: "shortest \<Rightarrow> analysis \<Rightarrow> pdf_state" where
  "report_body sd a =
     add_missing_values a (add_column_types a (add_summary sd a (add_title ([], 10))))"

text \<open>Parameters for running examples: the float literal \<^verbatim>\<open>1e21\<close>, and its shortest digits.\<close>

definition float_parser :: parser where
  "float_parser s = (if s = ''1e21'' then PFloat (10 ^ 21) else digits_parser s)"

definition shortest_1e21 :: shortest where
  "shortest_1e21 x = (1, 21)"

text \<open>
  Two tables for running examples, with what \<^verbatim>\<open>analyzeData\<close> returns for them: two numeric
  columns that are proportional, and a numeric column with an empty cell beside a text
  column with an empty string.
\<close>

definition sample_rows :: "row list" where
  "sample_rows =
     [[(''a'', ''1''), (''b'', ''2'')], [(''a'', ''2''), (''b'', ''4'')], [(''a'', ''3''), (''b'', ''6'')]]"

definition sample_analysis :: analysis where
  "sample_analysis =
     \<lparr> summary =
         [(''a'', [(''count'', JNum 3), (''mean'', JNum 2), (''std'', JNum 1), (''min'', JNum 1),
                  (''25%'', JNum (3 / 2)), (''50%'', JNum 2), (''75%'', JNum (5 / 2)), (''max'', JNum 3)]),
          (''b'', [(''count'', JNum 3), (''mean'', JNum 4), (''std'', JNum 2), (''min'', JNum 2),
                  (''25%'', JNum 3), (''50%'', JNum 4), (''75%'', JNum 5), (''max'', JNum 6)])],
       column_types = [(''a'', ''int64''), (''b'', ''int64'')],
       missing_values = [(''a'', 0), (''b'', 0)],
       correlations = [(''a'', [(''a'', 1), (''b'', 1)]), (''b'', [(''a'', 1), (''b'', 1)])] \<rparr>"

definition mixed_rows :: "row list" where
  "mixed_rows =
     [[(''n'', ''0''), (''t'', ''x'')], [(''n'', []), (''t'', [])],
      [(''n'', ''2''), (''t'', ''y'')], [(''n'', ''4''), (''t'', ''y'')]]"

definition mixed_analysis :: analysis where
  "mixed_analysis =
     \<lparr> summary =
         [(''n'', [(''count'', JNum 3), (''mean'', JNum 2), (''std'', JNum 2), (''min'', JNum 0),
                  (''25%'', JNum 1), (''50%'', JNum 2), (''75%'', JNum 3), (''max'', JNum 4)])],
       column_types = [(''n'', ''float64''), (''t'', ''object'')],
       missing_values = [(''n'', 1), (''t'', 0)],
       correlations = [] \<rparr>"

text \<open>A table where a numeric and a text column both have an empty cell.\<close>

definition blank_rows :: "row list" where
  "blank_rows =
     [[(''n'', ''1''), (''t'', ''1'')], [(''n'', []), (''t'', [])], [(''n'', ''1''), (''t'', ''x'')]]"

definition blank_analysis :: analysis where
  "blank_analysis =
     \<lparr> summary =
         [(''n'', [(''count'', JNum 2), (''mean'', JNum 1), (''std'', JNum 0), (''min'', JNum 1),
                  (''25%'', JNum 1), (''50%'', JNum 1), (''75%'', JNum 1), (''max'', JNum 1)])],
       column_types = [(''n'', ''float64''), (''t'', ''object'')],
       missing_values = [(''n'', 1), (''t'', 0)],
       correlations = [] \<rparr>"



section \<open>parseCSV and the request handler\<close>

text \<open>
  \<^verbatim>\<open>parseCSV\<close> collects the records the CSV stream emits and settles on the first
  \<^verbatim>\<open>end\<close> or \<^verbatim>\<open>error\<close> event; a stream that emits neither leaves the promise pending
  (\<open>None\<close>). What the stream emits for a given file is the CSV library's business.
\<close>

datatype event = Data row | End | Failed string

fun collect :: "event list \<Rightarrow> row list \<Rightarrow> (error + row list) option" where
  "collect [] results = None"
| "collect (Data d # es) results = collect es (results @ [d])"
| "collect (End # es) results = Some (Inr results)"
| "collect (Failed msg # es) results = Some (Inl (CsvError msg))"

definition parseCSV :: "event list \<Rightarrow> (error + row list) option" where
  "parseCSV es = collect es []"

datatype response = Status400 | Status500 error | Pdf "pdfop list" | Pending

text \<open>The handler of \<^verbatim>\<open>POST /api/analyze\<close>; \<open>None\<close> is a request without a file.\<close>

definition handle_analyze :: "parser \<Rightarrow> shortest \<Rightarrow> event list option \<Rightarrow> response" where
  "handle_analyze P sd upload =
     (case upload of
        None \<Rightarrow> Status400
      | Some es \<Rightarrow>
          (case parseCSV es of
             None \<Rightarrow> Pending
           | Some (Inl e) \<Rightarrow> Status500 e
           | Some (Inr data) \<Rightarrow>
               (case analyzeData P data of
                  Inl e \<Rightarrow> Status500 e
                | Inr a \<Rightarrow>
                    (case generatePDF sd a of
                       Inl e \<Rightarrow> Status500 e
                     | Inr pdf \<Rightarrow> Pdf pdf))))"

section \<open>Basic facts about the script and its result\<close>

lemmas py_defs = analyzeData_def run_python_def DataFrame_def columns_of_def raw_column_def
  convert_columns_def first_seen_def to_numeric_def digits_parser_def is_digit_def digit_value_def
  describe_def select_number_def describe_numeric_def describe_object_def or_nan_def mean_def
  std_def quartile_def corr_def pearson_def json_roundtrip_def json_dict_def


lemma analyzeData_Inr:
  assumes "analyzeData P data = Inr a"
  obtains r where "run_python P data = Inr r" and "json_roundtrip r = Inr a"
  using assms by (auto simp: analyzeData_def split: sum.splits)

lemma json_roundtrip_Inr:
  assumes "json_roundtrip r = Inr a"
  shows "missing_values a = py_missing_values r"
    and "column_types a = py_column_types r"
    and "json_dict (json_dict json_val) (py_summary r) = Some (summary a)"
    and "json_dict (json_dict json_num) (py_correlations r) = Some (correlations a)"
  using assms by (auto simp: json_roundtrip_def split: option.splits)

lemma run_python_Inr:
  assumes "run_python P data = Inr r"
  shows "describe (convert_columns P (DataFrame data)) = Inr (py_summary r)"
    and "py_column_types r = map (\<lambda>(k, c). (k, dtype c)) (convert_columns P (DataFrame data))"
    and "py_missing_values r = map (\<lambda>(k, c). (k, isnull_sum c)) (convert_columns P (DataFrame data))"
    and "py_correlations r =
           (if length (select_number (convert_columns P (DataFrame data))) > 1
            then corr (select_number (convert_columns P (DataFrame data))) else [])"
  using assms by (auto simp: run_python_def Let_def split: sum.splits)

lemma distinct_first_seen: "distinct (first_seen xs)"
  by (simp add: first_seen_def)

lemma frame_keys: "map fst (convert_columns P (DataFrame data)) = columns_of data"
  by (simp add: convert_columns_def DataFrame_def comp_def case_prod_unfold)

lemma frame_lookup:
  "c \<in> set (columns_of data) \<Longrightarrow>
     map_of (convert_columns P (DataFrame data)) c = Some (to_numeric P (raw_column data c))"
  by (simp add: convert_columns_def DataFrame_def map_of_map_restrict comp_def case_prod_unfold restrict_map_def)

lemma map_of_map_snd:
  "map_of (map (\<lambda>(k, c). (k, f c)) xs) k = map_option f (map_of xs k)"
  by (induction xs) auto

section \<open>Numbers as text: basic facts\<close>

declare show_nat.simps [simp del]

lemma is_digit_digit_char: "d < 10 \<Longrightarrow> is_digit (digit_char d)"
proof -
  assume "d < 10"
  then have "d \<in> {0, 1, 2, 3, 4, 5, 6, 7, 8, 9}" by auto
  then show ?thesis
    by (auto simp: is_digit_def digit_char_def)
qed

lemma show_nat_digits: "list_all is_digit (show_nat n)"
proof (induction n rule: show_nat.induct)
  case (1 n)
  show ?case
  proof (cases "n < 10")
    case True
    then show ?thesis by (subst show_nat.simps) (simp add: is_digit_digit_char)
  next
    case False
    with 1 show ?thesis by (subst show_nat.simps) (simp add: is_digit_digit_char)
  qed
qed

lemma show_nat_nonempty: "show_nat n \<noteq> []"
  by (subst show_nat.simps) simp

lemma not_digit_minus: "\<not> is_digit (CHR ''-'')"
  by (simp add: is_digit_def)

lemma two_decimals_fixed:
  assumes "ds \<noteq> []" "list_all is_digit ds" "is_digit d1" "is_digit d2" "sign = [] \<or> sign = ''-''"
  shows "two_decimals (sign @ ds @ ''.'' @ [d1, d2])"
proof -
  from assms(1,2) have "is_digit (hd ds)"
    by (cases ds) auto
  then have hd: "hd ds \<noteq> CHR ''-''"
    using not_digit_minus by auto
  from assms(5) show ?thesis
  proof
    assume "sign = []"
    with assms hd show ?thesis
      by (simp add: two_decimals_def last_rev)
  next
    assume "sign = ''-''"
    with assms show ?thesis
      by (simp add: two_decimals_def)
  qed
qed

lemma toFixed2_small:
  assumes "\<bar>x\<bar> < 10 ^ 21"
  shows "toFixed2 sd x =
           (if x < 0 then ''-'' else []) @ show_nat (hundredths x div 100) @ ''.'' @
           [digit_char (hundredths x mod 100 div 10), digit_char (hundredths x mod 10)]"
  using assms by (simp add: toFixed2_def Let_def)

lemma two_decimals_toFixed2:
  assumes "\<bar>x\<bar> < 10 ^ 21"
  shows "two_decimals (toFixed2 sd x)"
  unfolding toFixed2_small [OF assms]
  by (rule two_decimals_fixed) (auto simp: show_nat_nonempty show_nat_digits is_digit_digit_char)

lemma hundredths_nearest: "\<bar>real (hundredths x) / 100 - \<bar>x\<bar>\<bar> \<le> 1 / 200"
proof -
  define a where "a = \<bar>x\<bar>"
  define n where "n = \<lfloor>a * 100 + 1 / 2\<rfloor>"
  have "0 \<le> a" by (simp add: a_def)
  then have nn: "0 \<le> n" by (simp add: n_def)
  then have h: "real (hundredths x) = of_int n"
    by (simp add: hundredths_def n_def a_def)
  have lo: "of_int n \<le> a * 100 + 1 / 2" unfolding n_def by (rule of_int_floor_le)
  have hi: "a * 100 + 1 / 2 < of_int n + 1" unfolding n_def by linarith
  from lo hi show ?thesis
    unfolding h a_def [symmetric] abs_le_iff by auto
qed

text \<open>Rounding to binary64.\<close>

lemma round_even_bounds: "\<lfloor>y\<rfloor> \<le> round_even y \<and> round_even y \<le> \<lfloor>y\<rfloor> + 1"
  by (simp add: round_even_def Let_def)

lemma round_even_of_int [simp]: "round_even (of_int k) = k"
  by (simp add: round_even_def Let_def)

lemma round_even_numeral [simp]: "round_even (numeral n) = numeral n"
  using round_even_of_int [of "numeral n"] by simp

lemma round_even_mono:
  assumes "a \<le> b" shows "round_even a \<le> round_even b"
proof (cases "\<lfloor>a\<rfloor> = \<lfloor>b\<rfloor>")
  case True
  with assms show ?thesis
    by (auto simp: round_even_def Let_def)
next
  case False
  with assms have "\<lfloor>a\<rfloor> < \<lfloor>b\<rfloor>"
    using floor_mono [OF assms] by linarith
  then have "\<lfloor>a\<rfloor> + 1 \<le> \<lfloor>b\<rfloor>" by simp
  with round_even_bounds [of a] round_even_bounds [of b] show ?thesis by linarith
qed

lemma round_even_near: "\<bar>of_int (round_even y) - y\<bar> \<le> 1 / 2"
proof -
  have "of_int \<lfloor>y\<rfloor> \<le> y" "y < of_int \<lfloor>y\<rfloor> + 1" by linarith+
  then show ?thesis
    by (auto simp: round_even_def Let_def abs_le_iff)
qed

lemma binade_bounds:
  assumes "x \<noteq> 0"
  shows "2 powr of_int (binade x) \<le> \<bar>x\<bar>" and "\<bar>x\<bar> < 2 powr (of_int (binade x) + 1)"
proof -
  from assms have pos: "0 < \<bar>x\<bar>" by simp
  have "of_int (binade x) \<le> log 2 \<bar>x\<bar>" unfolding binade_def by linarith
  then show "2 powr of_int (binade x) \<le> \<bar>x\<bar>"
    using pos by (simp add: le_log_iff)
  have "log 2 \<bar>x\<bar> < of_int (binade x) + 1" unfolding binade_def by linarith
  then show "\<bar>x\<bar> < 2 powr (of_int (binade x) + 1)"
    using pos by (simp add: log_less_iff)
qed

lemma binade_eqI:
  assumes "2 powr of_int e \<le> \<bar>x\<bar>" and "\<bar>x\<bar> < 2 powr (of_int e + 1)"
  shows "binade x = e"
proof -
  have pos: "0 < \<bar>x\<bar>"
    using assms(1) by (rule less_le_trans [rotated]) simp
  have "of_int e \<le> log 2 \<bar>x\<bar>"
    using assms(1) pos by (simp add: le_log_iff)
  moreover have "log 2 \<bar>x\<bar> < of_int e + 1"
    using assms(2) pos by (simp add: log_less_iff)
  ultimately show ?thesis
    unfolding binade_def by linarith
qed

lemma binade_mono:
  assumes "0 < x" "x \<le> y" shows "binade x \<le> binade y"
  unfolding binade_def using assms by (intro floor_mono) (simp add: log_le_cancel_iff)

lemma ulp_pos: "0 < ulp x"
  by (simp add: ulp_def)

lemma fl_eqI:
  assumes "2 powr of_int e \<le> \<bar>x\<bar>" and "\<bar>x\<bar> < 2 powr (of_int e + 1)"
    and "round_even (x / 2 powr (of_int e - 52)) = k"
  shows "fl x = 2 powr (of_int e - 52) * of_int k"
proof -
  have "(0::real) < 2 powr of_int e" by simp
  with assms(1) have "x \<noteq> 0" by auto
  moreover have "binade x = e" using assms(1,2) by (rule binade_eqI)
  ultimately show ?thesis using assms(3) by (simp add: fl_def ulp_def)
qed

lemma scaled_bounds:
  assumes "0 < x"
  shows "2 ^ 52 \<le> x / ulp x" and "x / ulp x < 2 ^ 53"
proof -
  have x: "x \<noteq> 0" "\<bar>x\<bar> = x" using assms by auto
  have u: "ulp x = 2 powr of_int (binade x) / 2 ^ 52"
    by (simp add: ulp_def powr_diff)
  from binade_bounds(1) [OF x(1)] x(2) have "2 powr of_int (binade x) \<le> x" by simp
  then show "2 ^ 52 \<le> x / ulp x"
    unfolding u by (simp add: field_simps)
  from binade_bounds(2) [OF x(1)] x(2) have "x < 2 powr of_int (binade x) * 2"
    by (simp add: powr_add)
  then show "x / ulp x < 2 ^ 53"
    unfolding u by (simp add: field_simps)
qed

lemma fl_range:
  assumes "0 < x"
  shows "2 powr of_int (binade x) \<le> fl x" and "fl x \<le> 2 powr (of_int (binade x) + 1)"
proof -
  have x: "x \<noteq> 0" using assms by auto
  have u: "2 powr of_int (binade x) = ulp x * 2 ^ 52"
    by (simp add: ulp_def powr_diff)
  have u': "2 powr (of_int (binade x) + 1) = ulp x * 2 ^ 53"
    by (simp add: ulp_def powr_diff powr_add)
  have "round_even (of_int (2 ^ 52)) \<le> round_even (x / ulp x)"
    by (rule round_even_mono) (use scaled_bounds(1) [OF assms] in simp)
  then have lo: "(2 ^ 52 :: real) \<le> of_int (round_even (x / ulp x))"
    by (metis of_int_le_iff of_int_numeral of_int_power round_even_of_int)
  have "round_even (x / ulp x) \<le> round_even (of_int (2 ^ 53))"
    by (rule round_even_mono) (use scaled_bounds(2) [OF assms] in simp)
  then have hi: "of_int (round_even (x / ulp x)) \<le> (2 ^ 53 :: real)"
    by (metis of_int_le_iff of_int_numeral of_int_power round_even_of_int)
  show "2 powr of_int (binade x) \<le> fl x"
    unfolding u using lo x ulp_pos [of x] by (simp add: fl_def)
  show "fl x \<le> 2 powr (of_int (binade x) + 1)"
    unfolding u' using hi x ulp_pos [of x] by (simp add: fl_def)
qed

lemma fl_nonneg: "0 \<le> x \<Longrightarrow> 0 \<le> fl x"
proof (cases "x = 0")
  case True then show ?thesis by (simp add: fl_def)
next
  case False
  assume "0 \<le> x"
  with False have "0 < x" by simp
  from fl_range(1) [OF this] show ?thesis
    by (rule order_trans [rotated]) simp
qed

lemma fl_mono:
  assumes "0 \<le> x" "x \<le> y" shows "fl x \<le> fl y"
proof (cases "x = 0")
  case True
  with assms fl_nonneg [of y] show ?thesis by (simp add: fl_def)
next
  case False
  with assms have x: "0 < x" and y: "0 < y" by auto
  show ?thesis
  proof (cases "binade x = binade y")
    case True
    then have u: "ulp x = ulp y" by (simp add: ulp_def)
    have "x / ulp y \<le> y / ulp y"
      using assms(2) ulp_pos [of y] by (simp add: divide_right_mono)
    then have "round_even (x / ulp y) \<le> round_even (y / ulp y)"
      by (rule round_even_mono)
    then have "ulp y * of_int (round_even (x / ulp y)) \<le> ulp y * of_int (round_even (y / ulp y))"
      using ulp_pos [of y] by simp
    with x y u show ?thesis by (simp add: fl_def)
  next
    case False
    with binade_mono [OF x assms(2)] have "binade x + 1 \<le> binade y" by simp
    then have "(2::real) powr (of_int (binade x) + 1) \<le> 2 powr of_int (binade y)"
      by simp
    with fl_range(2) [OF x] fl_range(1) [OF y] show ?thesis by linarith
  qed
qed

lemma fl_error:
  "\<bar>fl x - x\<bar> \<le> \<bar>x\<bar> / 2 ^ 53"
proof (cases "x = 0")
  case True then show ?thesis by (simp add: fl_def)
next
  case False
  have "\<bar>of_int (round_even (x / ulp x)) - x / ulp x\<bar> \<le> 1 / 2"
    by (rule round_even_near)
  then have "ulp x * \<bar>of_int (round_even (x / ulp x)) - x / ulp x\<bar> \<le> ulp x * (1 / 2)"
    using ulp_pos [of x] by simp
  moreover have "ulp x * \<bar>of_int (round_even (x / ulp x)) - x / ulp x\<bar> = \<bar>fl x - x\<bar>"
  proof -
    have "ulp x * \<bar>of_int (round_even (x / ulp x)) - x / ulp x\<bar>
        = \<bar>ulp x * (of_int (round_even (x / ulp x)) - x / ulp x)\<bar>"
      using ulp_pos [of x] by (simp add: abs_mult)
    also have "\<dots> = \<bar>fl x - x\<bar>"
      using False ulp_pos [of x] by (simp add: fl_def algebra_simps)
    finally show ?thesis .
  qed
  moreover have "ulp x * (1 / 2) \<le> \<bar>x\<bar> / 2 ^ 53"
  proof -
    have "ulp x = 2 powr of_int (binade x) / 2 ^ 52"
      by (simp add: ulp_def powr_diff)
    with binade_bounds(1) [OF False] show ?thesis by (simp add: field_simps)
  qed
  ultimately show ?thesis by linarith
qed

lemma fl_1: "fl 1 = 1"
  using fl_eqI [of 0 1 "2 ^ 52"] by (simp add: powr_minus)

lemma fl_255: "fl 255 = 255"
  using fl_eqI [of 7 255 "255 * 2 ^ 45"] by (simp add: powr_minus)

text \<open>The double nearest to 0.2 is \<open>3602879701896397 / 2\<^sup>5\<^sup>4\<close>.\<close>

lemma fl_one_minus_fifth:
  "fl (1 - \<bar>3602879701896397 / 2 ^ 54\<bar>) = 7205759403792794 / 2 ^ 53"
proof -
  have "1 - \<bar>3602879701896397 / 2 ^ 54 :: real\<bar> = 14411518807585587 / 2 ^ 54"
    by simp
  moreover have "fl (14411518807585587 / 2 ^ 54) = 7205759403792794 / 2 ^ 53"
    using fl_eqI [of "-1" "14411518807585587 / 2 ^ 54" 7205759403792794]
    by (simp add: powr_minus round_even_def)
  ultimately show ?thesis by simp
qed

lemma fl_red_fifth: "fl (255 * (7205759403792794 / 2 ^ 53)) = 204"
  using fl_eqI [of 7 "255 * (7205759403792794 / 2 ^ 53)" 7177611906121728]
  by (simp add: powr_minus round_even_def)

lemma channels_abs: "channels v = channels \<bar>v\<bar>"
  by (simp add: channels_def)

lemma color_abs: "getCorrelationColor v = getCorrelationColor \<bar>v\<bar>"
  by (simp add: getCorrelationColor_def channels_abs [of v])

lemma red_mono:
  assumes "\<bar>v\<bar> \<le> \<bar>w\<bar>" and "\<bar>w\<bar> \<le> 1"
  shows "fl (255 * fl (1 - \<bar>w\<bar>)) \<le> fl (255 * fl (1 - \<bar>v\<bar>))"
proof -
  have "fl (1 - \<bar>w\<bar>) \<le> fl (1 - \<bar>v\<bar>)"
    using assms by (intro fl_mono) auto
  moreover have "0 \<le> fl (1 - \<bar>w\<bar>)"
    using assms(2) by (intro fl_nonneg) simp
  ultimately show ?thesis
    by (intro fl_mono) auto
qed

lemma channels_mono:
  assumes "\<bar>v\<bar> \<le> \<bar>w\<bar>" and "\<bar>w\<bar> \<le> 1"
  shows "fst (channels w) \<le> fst (channels v)"
    and "fst (snd (channels w)) \<le> fst (snd (channels v))"
    and "snd (snd (channels w)) = snd (snd (channels v))"
  using red_mono [OF assms] by (auto simp: channels_def intro!: floor_mono)

lemma red_range:
  assumes "\<bar>v\<bar> \<le> 1"
  shows "0 \<le> fl (255 * fl (1 - \<bar>v\<bar>))" and "fl (255 * fl (1 - \<bar>v\<bar>)) \<le> 255"
proof -
  have nn: "0 \<le> fl (1 - \<bar>v\<bar>)"
    using assms by (intro fl_nonneg) simp
  then show "0 \<le> fl (255 * fl (1 - \<bar>v\<bar>))"
    by (intro fl_nonneg) simp
  have "fl (1 - \<bar>v\<bar>) \<le> fl 1"
    using assms by (intro fl_mono) auto
  then have "255 * fl (1 - \<bar>v\<bar>) \<le> 255"
    by (simp add: fl_1)
  with nn have "fl (255 * fl (1 - \<bar>v\<bar>)) \<le> fl 255"
    by (intro fl_mono) auto
  then show "fl (255 * fl (1 - \<bar>v\<bar>)) \<le> 255"
    by (simp add: fl_255)
qed

lemma red_near_linear:
  assumes "\<bar>v\<bar> \<le> 1"
  shows "\<bar>fl (255 * fl (1 - \<bar>v\<bar>)) - 255 * (1 - \<bar>v\<bar>)\<bar> \<le> 510 / 2 ^ 53"
proof -
  define t where "t = 1 - \<bar>v\<bar>"
  have t: "0 \<le> t" "t \<le> 1" using assms by (auto simp: t_def)
  have f01: "0 \<le> fl t" "fl t \<le> 1"
    using fl_nonneg [of t] fl_mono [of t 1] t by (auto simp: fl_1)
  have e1: "\<bar>fl t - t\<bar> \<le> 1 / 2 ^ 53"
    using fl_error [of t] t by (auto intro: order_trans simp: divide_right_mono)
  have "\<bar>fl (255 * fl t) - 255 * fl t\<bar> \<le> \<bar>255 * fl t\<bar> / 2 ^ 53"
    by (rule fl_error)
  also have "\<dots> \<le> 255 / 2 ^ 53"
    using f01 by (simp add: divide_right_mono)
  finally have e2: "\<bar>fl (255 * fl t) - 255 * fl t\<bar> \<le> 255 / 2 ^ 53" .
  have "\<bar>fl (255 * fl t) - 255 * t\<bar> = \<bar>(fl (255 * fl t) - 255 * fl t) + 255 * (fl t - t)\<bar>"
    by simp
  also have "\<dots> \<le> \<bar>fl (255 * fl t) - 255 * fl t\<bar> + \<bar>255 * (fl t - t)\<bar>"
    by (rule abs_triangle_ineq)
  also have "\<dots> = \<bar>fl (255 * fl t) - 255 * fl t\<bar> + 255 * \<bar>fl t - t\<bar>"
    unfolding abs_mult by simp
  also have "\<dots> \<le> 255 / 2 ^ 53 + 255 * (1 / 2 ^ 53)"
    using e1 e2 by (intro add_mono mult_left_mono) auto
  finally show ?thesis
    unfolding t_def [symmetric] by simp
qed

lemma draw_cell_drawn:
  assumes "lookup2 corrs col1 col2 = Some v"
  shows "\<exists>c'. draw_cell sd corrs cell (i, col1) (j, col2) c = Inr c'
       \<and> drawn c' = drawn c @
           [FillRect ((current c)\<lparr> fillStyle := getCorrelationColor v \<rparr>)
              (80 + real i * cell) (50 + real j * cell) cell cell,
            FillText ((current c)\<lparr> fillStyle := ''black'', font := ''10px Arial'',
                         textAlign := ''center'', textBaseline := ''middle'' \<rparr>)
              (toFixed2 sd v) (80 + real i * cell + cell / 2) (50 + real j * cell + cell / 2)]"
  using assms by (simp add: draw_cell_def Let_def fillRect_def fillText_def field_simps)

section \<open>The shape of the document\<close>

lemma texts_append: "texts (xs @ ys) = texts xs @ texts ys"
  by (induction xs rule: texts.induct) auto

lemma images_append: "images (xs @ ys) = images xs @ images ys"
  by (induction xs rule: images.induct) auto

lemma texts_lines: "texts (lines ss y) = ss"
  by (induction ss arbitrary: y) auto

lemma images_lines: "images (lines ss y) = []"
  by (induction ss arbitrary: y) auto

lemma headings_lines: "sz < 16 \<Longrightarrow> headings sz (lines ss y @ ops) = headings sz ops"
  by (induction ss arbitrary: y) auto

lemma texts_entries: "texts (entries sd es y) = concat (map (entry_texts sd) es)"
  by (induction es arbitrary: y) (auto simp: texts_append texts_lines)

lemma images_entries: "images (entries sd es y) = []"
  by (induction es arbitrary: y) (auto simp: images_append images_lines)

lemma headings_entries: "sz < 16 \<Longrightarrow> headings sz (entries sd es y @ ops) = headings sz ops"
  by (induction es arbitrary: y) (auto simp: headings_lines)

lemma fold_lines:
  "fold (\<lambda>kv (doc, y). (doc @ [DrawText (f kv) 10 y False], y + 5)) xs (doc, y) =
     (doc @ lines (map f xs) y, y + 5 * length xs)"
proof (induction xs arbitrary: doc y)
  case Nil
  then show ?case by simp
next
  case (Cons x xs)
  show ?case by (simp add: Cons.IH [of "doc @ [DrawText (f x) 10 y False]" "y + 5"])
qed

lemma stat_line_eq:
  "stat_line sd = (\<lambda>kv (doc, y). (doc @ [DrawText (stat_text sd kv) 10 y False], y + 5))"
  by (auto simp: stat_line_def stat_text_def fun_eq_iff)

lemma summary_entry_eq:
  "summary_entry sd e (doc, y) =
     (doc @ lines (entry_texts sd e) y, y + 5 * length (snd e) + 10)"
  by (cases e) (simp add: summary_entry_def entry_texts_def stat_line_eq fold_lines)

lemma fold_summary_entry:
  "fold (summary_entry sd) es (doc, y) = (doc @ entries sd es y, entries_end es y)"
proof (induction es arbitrary: doc y)
  case Nil
  then show ?case by simp
next
  case (Cons e es)
  have len: "5 * length (entry_texts sd e) + 5 = 5 * length (snd e) + 10"
    by (cases e) (simp add: entry_texts_def)
  show ?case
    by (simp add: summary_entry_eq Cons.IH len add.assoc)
qed

lemma add_summary_eq:
  "add_summary sd a (doc, y) =
     (doc @ [SetFontSize 16, DrawText ''Summary Statistics'' 10 y False, SetFontSize 12]
          @ entries sd (summary a) (y + 10),
      entries_end (summary a) (y + 10))"
  by (simp add: add_summary_def fold_summary_entry)

lemma add_column_types_eq:
  "add_column_types a (doc, y) =
     (doc @ [SetFontSize 16, DrawText ''Column Types'' 10 (y + 10) False, SetFontSize 12]
          @ lines (map (\<lambda>(column, type). column @ '': '' @ type) (column_types a)) (y + 20),
      y + 20 + 5 * length (column_types a))"
proof -
  have f: "(\<lambda>(column, type) (doc, y). (doc @ [DrawText (column @ '': '' @ type) 10 y False], y + 5))
         = (\<lambda>kv (doc, y). (doc @ [DrawText ((\<lambda>(column, type). column @ '': '' @ type) kv) 10 y False], y + 5))"
    by (auto simp: fun_eq_iff)
  show ?thesis
    unfolding add_column_types_def f by (simp add: fold_lines)
qed

lemma add_missing_values_eq:
  "add_missing_values a (doc, y) =
     (doc @ [SetFontSize 16, DrawText ''Missing Values'' 10 (y + 10) False, SetFontSize 12]
          @ lines (map (\<lambda>(column, count). column @ '': '' @ show_nat count) (missing_values a)) (y + 20),
      y + 20 + 5 * length (missing_values a))"
proof -
  have f: "(\<lambda>(column, count) (doc, y). (doc @ [DrawText (column @ '': '' @ show_nat count) 10 y False], y + 5))
         = (\<lambda>kv (doc, y). (doc @ [DrawText ((\<lambda>(column, count). column @ '': '' @ show_nat count) kv) 10 y False], y + 5))"
    by (auto simp: fun_eq_iff)
  show ?thesis
    unfolding add_missing_values_def f by (simp add: fold_lines)
qed

lemma report_body_texts:
  "texts (fst (report_body sd a)) =
     [''Data Analysis Report'', ''Summary Statistics''] @ concat (map (entry_texts sd) (summary a))
     @ [''Column Types''] @ map (\<lambda>(column, type). column @ '': '' @ type) (column_types a)
     @ [''Missing Values''] @ map (\<lambda>(column, count). column @ '': '' @ show_nat count) (missing_values a)"
  by (simp add: report_body_def add_title_def add_summary_eq add_column_types_eq add_missing_values_eq
      texts_append texts_lines texts_entries)

lemma report_body_headings:
  "headings 0 (fst (report_body sd a) @ ops) =
     [''Data Analysis Report'', ''Summary Statistics'', ''Column Types'', ''Missing Values''] @ headings 12 ops"
  by (simp add: report_body_def add_title_def add_summary_eq add_column_types_eq add_missing_values_eq
      headings_lines headings_entries)

lemma report_body_images: "images (fst (report_body sd a)) = []"
  by (simp add: report_body_def add_title_def add_summary_eq add_column_types_eq add_missing_values_eq
      images_append images_lines images_entries)

section \<open>The shape of the result, and the heatmap on it\<close>

lemma all_some_map_fst:
  "all_some (map (\<lambda>(k, v). map_option (\<lambda>w. (k, w)) (f v)) kvs) = Some kws \<Longrightarrow>
     map fst kws = map fst kvs"
proof (induction kvs arbitrary: kws)
  case Nil
  then show ?case by simp
next
  case (Cons kv kvs)
  then show ?case
    by (cases kv; cases "f (snd kv)") (auto split: option.splits)
qed

lemma json_dict_keys: "json_dict f kvs = Some kws \<Longrightarrow> map fst kws = map fst kvs"
  unfolding json_dict_def by (rule all_some_map_fst)

lemma json_dict_values:
  "json_dict f kvs = Some kws \<Longrightarrow> (k, w) \<in> set kws \<Longrightarrow> \<exists>v. (k, v) \<in> set kvs \<and> f v = Some w"
  unfolding json_dict_def
proof (induction kvs arbitrary: kws)
  case Nil
  then show ?case by simp
next
  case (Cons kv kvs)
  then show ?case
    by (cases kv; cases "f (snd kv)") (fastforce split: option.splits)+
qed

lemma square_corr: "square_matrix (corr df)"
  by (auto simp: square_matrix_def corr_def list_all_iff comp_def case_prod_unfold)

lemma corr_keys: "map fst (corr df) = map fst df"
  by (simp add: corr_def comp_def case_prod_unfold)

lemma square_json:
  assumes "square_matrix m" and "json_dict (json_dict f) m = Some m'"
  shows "square_matrix m'"
proof -
  have keys: "map fst m' = map fst m"
    using assms(2) by (rule json_dict_keys)
  show ?thesis
    unfolding square_matrix_def list_all_iff
  proof (clarify)
    fix k inner' assume "(k, inner') \<in> set m'"
    with assms(2) obtain inner where in_m: "(k, inner) \<in> set m" and j: "json_dict f inner = Some inner'"
      by (blast dest: json_dict_values)
    from assms(1) in_m have "map fst inner = map fst m"
      by (auto simp: square_matrix_def list_all_iff)
    with json_dict_keys [OF j] keys show "map fst inner' = map fst m'" by simp
  qed
qed

lemma lookup2_square:
  assumes "square_matrix m" "a \<in> fst ` set m" "b \<in> fst ` set m"
  shows "\<exists>v. lookup2 m a b = Some v"
proof -
  from assms(2) obtain inner where m: "map_of m a = Some inner"
    by (metis domD dom_map_of_conv_image_fst)
  then have "(a, inner) \<in> set m" by (rule map_of_SomeD)
  with assms(1) have "map fst inner = map fst m"
    by (auto simp: square_matrix_def list_all_iff)
  then have "fst ` set inner = fst ` set m"
    by (metis set_map)
  with assms(3) obtain v where "map_of inner b = Some v"
    by (metis domD dom_map_of_conv_image_fst)
  with m show ?thesis by (simp add: lookup2_def)
qed

lemma forEach_total:
  assumes "\<And>x s. x \<in> set xs \<Longrightarrow> \<exists>s'. f x s = Inr s'"
  shows "\<exists>s'. forEach f xs s = Inr s'"
  using assms
proof (induction xs arbitrary: s)
  case Nil
  then show ?case by simp
next
  case (Cons x xs)
  from Cons.prems [of x s] obtain s1 where s1: "f x s = Inr s1" by auto
  from Cons.IH [of s1] Cons.prems obtain s2 where "forEach f xs s1 = Inr s2" by auto
  with s1 show ?case by simp
qed

lemma draw_cell_total:
  assumes "lookup2 corrs col1 col2 = Some v"
  shows "\<exists>c'. draw_cell sd corrs cell (i, col1) (j, col2) c = Inr c'"
  using assms by (simp add: draw_cell_def Let_def)

lemma heatmap_total:
  assumes "square_matrix corrs"
  shows "\<exists>img. createCorrelationHeatmap sd corrs = Inr img"
proof -
  let ?cols = "enumerate 0 (map fst corrs)"
  let ?cell = "cellSize (length (map fst corrs))"
  have key: "col \<in> fst ` set corrs" if "(i, col) \<in> set ?cols" for i col
    using that by (auto simp: in_set_enumerate_eq)
  have inner: "\<exists>c'. forEach (\<lambda>jc2. draw_cell sd corrs ?cell ic1 jc2) ?cols c = Inr c'"
    if "ic1 \<in> set ?cols" for ic1 c
  proof (rule forEach_total)
    fix jc2 s assume "jc2 \<in> set ?cols"
    obtain i col1 where ic1: "ic1 = (i, col1)" by (cases ic1)
    obtain j col2 where jc2: "jc2 = (j, col2)" by (cases jc2)
    from that ic1 have "col1 \<in> fst ` set corrs" using key by blast
    moreover from \<open>jc2 \<in> set ?cols\<close> jc2 have "col2 \<in> fst ` set corrs" using key by blast
    ultimately obtain v where "lookup2 corrs col1 col2 = Some v"
      using lookup2_square [OF assms] by blast
    then show "\<exists>s'. draw_cell sd corrs ?cell ic1 jc2 s = Inr s'"
      unfolding ic1 jc2 by (rule draw_cell_total)
  qed
  have "\<exists>c'. forEach (\<lambda>ic1. forEach (\<lambda>jc2. draw_cell sd corrs ?cell ic1 jc2) ?cols) ?cols getContext = Inr c'"
    by (rule forEach_total) (use inner in blast)
  then show ?thesis
    by (auto simp: createCorrelationHeatmap_def Let_def)
qed

lemma generatePDF_no_heatmap:
  "correlations a = [] \<Longrightarrow> generatePDF sd a = Inr (fst (report_body sd a))"
  by (simp add: generatePDF_def add_heatmap_def report_body_def case_prod_unfold)

lemma generatePDF_heatmap:
  "correlations a \<noteq> [] \<Longrightarrow> createCorrelationHeatmap sd (correlations a) = Inr img \<Longrightarrow>
     generatePDF sd a =
       Inr (fst (report_body sd a) @
            [SetFontSize 16, DrawText ''Correlation Heatmap'' 10 (snd (report_body sd a) + 10) False,
             AddImage img 10 (snd (report_body sd a) + 20) 190 100])"
  by (simp add: generatePDF_def add_heatmap_def report_body_def case_prod_unfold)

lemma analysis_square:
  assumes "analyzeData P data = Inr a"
  shows "square_matrix (correlations a)"
proof -
  from assms obtain r where r: "run_python P data = Inr r" and j: "json_roundtrip r = Inr a"
    by (rule analyzeData_Inr)
  have "square_matrix (py_correlations r)"
    unfolding run_python_Inr(4) [OF r] by (simp add: square_corr) (simp add: square_matrix_def)
  then show ?thesis
    using json_roundtrip_Inr(4) [OF j] by (rule square_json)
qed

lemma analysis_correlation_keys:
  assumes "analyzeData P data = Inr a"
  shows "map fst (correlations a) =
           (if length (select_number (convert_columns P (DataFrame data))) > 1
            then map fst (select_number (convert_columns P (DataFrame data))) else [])"
proof -
  from assms obtain r where r: "run_python P data = Inr r" and j: "json_roundtrip r = Inr a"
    by (rule analyzeData_Inr)
  have "map fst (correlations a) = map fst (py_correlations r)"
    using json_roundtrip_Inr(4) [OF j] by (rule json_dict_keys)
  then show ?thesis
    unfolding run_python_Inr(4) [OF r] by (simp add: corr_keys)
qed

subsection \<open>The cells the heatmap draws\<close>

lemma draw_cell_block:
  assumes "draw_cell sd corrs cell ic jc c = Inr c'" and "transforms (current c) = []"
  shows "transforms (current c') = [] \<and>
         (\<exists>b. drawn c' = drawn c @ b \<and> length b = 2 \<and> cell_block sd corrs cell ic jc b)"
proof -
  obtain i col1 where ic: "ic = (i, col1)" by (cases ic)
  obtain j col2 where jc: "jc = (j, col2)" by (cases jc)
  from assms(1) obtain v where v: "lookup2 corrs col1 col2 = Some v"
    unfolding ic jc by (auto simp: draw_cell_def split: option.splits)
  have ts: "(current c)\<lparr> fillStyle := ''black'', font := ''10px Arial'',
                textAlign := ''center'', textBaseline := ''middle'' \<rparr> = cell_text_style"
    using assms(2) by (cases "current c") (simp add: cell_text_style_def)
  from assms(1) v have c': "c' = c\<lparr> current := cell_text_style,
        drawn := drawn c @
          [FillRect ((current c)\<lparr> fillStyle := getCorrelationColor v \<rparr>)
             (80 + real i * cell) (50 + real j * cell) cell cell,
           FillText cell_text_style (toFixed2 sd v)
             (80 + real i * cell + cell / 2) (50 + real j * cell + cell / 2)] \<rparr>"
    unfolding ic jc
    by (auto simp: draw_cell_def Let_def fillRect_def fillText_def ts field_simps)
  show ?thesis
    unfolding c' ic jc cell_block_def using v assms(2)
    by (auto simp: cell_text_style_def intro!: exI [of _ v]
          exI [of _ "(current c)\<lparr> fillStyle := getCorrelationColor v \<rparr>"])
qed

lemma forEach_blocks:
  assumes step: "\<And>x s s'. x \<in> set xs \<Longrightarrow> I s \<Longrightarrow> f x s = Inr s' \<Longrightarrow>
                   I s' \<and> (\<exists>b. drawn s' = drawn s @ b \<and> length b = k \<and> R x b)"
    and "I s" and "forEach f xs s = Inr s'"
  shows "I s' \<and> (\<exists>bs. drawn s' = drawn s @ concat bs \<and> list_all2 R xs bs
                     \<and> (\<forall>b \<in> set bs. length b = k))"
  using assms
proof (induction xs arbitrary: s)
  case Nil
  then show ?case by simp
next
  case (Cons x xs)
  from Cons.prems(3) obtain s1 where s1: "f x s = Inr s1" and rest: "forEach f xs s1 = Inr s'"
    by (auto split: sum.splits)
  from Cons.prems(1) [of x s s1] Cons.prems(2) s1
  obtain b where I1: "I s1" and b: "drawn s1 = drawn s @ b" "length b = k" "R x b"
    by auto
  have "I s' \<and> (\<exists>bs. drawn s' = drawn s1 @ concat bs \<and> list_all2 R xs bs
                     \<and> (\<forall>b \<in> set bs. length b = k))"
  proof (rule Cons.IH [OF _ I1 rest])
    fix y t t' assume "y \<in> set xs" "I t" "f y t = Inr t'"
    then show "I t' \<and> (\<exists>b. drawn t' = drawn t @ b \<and> length b = k \<and> R y b)"
      using Cons.prems(1) [of y t t'] by simp
  qed
  then obtain bs where I': "I s'" and bs: "drawn s' = drawn s1 @ concat bs" "list_all2 R xs bs"
      "\<forall>b \<in> set bs. length b = k"
    by blast
  show ?case
    using I' b bs by (intro conjI exI [of _ "b # bs"]) auto
qed

lemma nth_concat_blocks:
  assumes "\<forall>b \<in> set bs. length b = k" and "i < length bs" and "j < k"
  shows "concat bs ! (i * k + j) = bs ! i ! j"
  using assms
proof (induction bs arbitrary: i)
  case Nil
  then show ?case by simp
next
  case (Cons b bs)
  show ?case
  proof (cases i)
    case 0
    with Cons.prems show ?thesis by (simp add: nth_append)
  next
    case (Suc i')
    with Cons.prems have "concat bs ! (i' * k + j) = bs ! i' ! j"
      by (intro Cons.IH) auto
    with Suc Cons.prems show ?thesis
      by (simp add: nth_append add.assoc)
  qed
qed

lemma length_concat_blocks:
  assumes "\<forall>b \<in> set bs. length b = k"
  shows "length (concat bs) = length bs * k"
  using assms by (induction bs) auto

lemma draw_label_drawn: "\<exists>ds. drawn (draw_label cell ic c) = drawn c @ ds"
  by (cases ic)
     (simp add: draw_label_def Let_def fillText_def save_def restore_def transform_def
        split: list.splits)

lemma fold_draw_label_drawn: "\<exists>ds. drawn (fold (draw_label cell) xs c) = drawn c @ ds"
proof (induction xs arbitrary: c)
  case Nil
  then show ?case by simp
next
  case (Cons x xs)
  from draw_label_drawn [of cell x c] obtain d1 where d1: "drawn (draw_label cell x c) = drawn c @ d1" ..
  from Cons.IH [of "draw_label cell x c"] obtain d2
    where "drawn (fold (draw_label cell) xs (draw_label cell x c)) = drawn (draw_label cell x c) @ d2" ..
  with d1 show ?case by simp
qed

lemma heatmap_cells:
  assumes "createCorrelationHeatmap sd corrs = Inr img"
    and "i < length corrs" and "j < length corrs"
  shows "\<exists>b. cell_block sd corrs (cellSize (length corrs)) (i, fst (corrs ! i)) (j, fst (corrs ! j)) b
           \<and> 2 * (i * length corrs + j) + 1 < length img
           \<and> img ! (2 * (i * length corrs + j)) = b ! 0
           \<and> img ! (2 * (i * length corrs + j) + 1) = b ! 1"
proof -
  let ?n = "length corrs"
  let ?cols = "enumerate 0 (map fst corrs)"
  let ?cell = "cellSize (length (map fst corrs))"
  let ?I = "\<lambda>c. transforms (current c) = []"
  let ?row = "\<lambda>ic b. \<exists>bs. b = concat bs \<and> list_all2 (cell_block sd corrs ?cell ic) ?cols bs
                          \<and> (\<forall>b \<in> set bs. length b = 2)"
  from assms(1) obtain c where
    c: "forEach (\<lambda>ic1. forEach (\<lambda>jc2. draw_cell sd corrs ?cell ic1 jc2) ?cols) ?cols getContext = Inr c"
    and img: "img = drawn (fold (draw_label ?cell) ?cols
                (c\<lparr> current := (current c)\<lparr> fillStyle := ''black'', font := ''12px Arial'',
                        textAlign := ''right'', textBaseline := ''middle'' \<rparr> \<rparr>))"
    by (auto simp: createCorrelationHeatmap_def Let_def split: sum.splits)
  have inner: "?I s' \<and> (\<exists>b. drawn s' = drawn s @ b \<and> length b = 2 * ?n \<and> ?row ic b)"
    if "?I s" and "forEach (\<lambda>jc2. draw_cell sd corrs ?cell ic jc2) ?cols s = Inr s'" for ic s s'
  proof -
    have "?I s' \<and> (\<exists>bs. drawn s' = drawn s @ concat bs
            \<and> list_all2 (cell_block sd corrs ?cell ic) ?cols bs \<and> (\<forall>b \<in> set bs. length b = 2))"
      by (rule forEach_blocks [where I = ?I, OF _ that]) (rule draw_cell_block)
    then obtain bs where I': "?I s'" and bs: "drawn s' = drawn s @ concat bs"
        "list_all2 (cell_block sd corrs ?cell ic) ?cols bs" "\<forall>b \<in> set bs. length b = 2"
      by blast
    from bs(2) have "length bs = ?n"
      by (auto dest: list_all2_lengthD)
    with length_concat_blocks [OF bs(3)] have "length (concat bs) = 2 * ?n" by simp
    with I' bs show ?thesis by blast
  qed
  have "?I c \<and> (\<exists>rows. drawn c = drawn getContext @ concat rows \<and> list_all2 ?row ?cols rows
            \<and> (\<forall>b \<in> set rows. length b = 2 * ?n))"
    by (rule forEach_blocks [where I = ?I, OF _ _ c]) (use inner in \<open>auto simp: getContext_def\<close>)
  then obtain rows where rows: "drawn c = concat rows" "list_all2 ?row ?cols rows"
      "\<forall>b \<in> set rows. length b = 2 * ?n"
    by (auto simp: getContext_def)
  from rows(2) have lr: "length rows = ?n"
    by (auto dest: list_all2_lengthD)
  from rows(2) assms(2) have "?row (?cols ! i) (rows ! i)"
    by (auto simp: list_all2_conv_all_nth)
  then obtain bs where bs: "rows ! i = concat bs"
      "list_all2 (cell_block sd corrs ?cell (i, fst (corrs ! i))) ?cols bs" "\<forall>b \<in> set bs. length b = 2"
    using assms(2) by (auto simp: nth_enumerate_eq)
  from bs(2) have lb: "length bs = ?n"
    by (auto dest: list_all2_lengthD)
  from bs(2) assms(3) have blk: "cell_block sd corrs ?cell (i, fst (corrs ! i)) (?cols ! j) (bs ! j)"
    by (auto simp: list_all2_conv_all_nth)
  then have blk': "cell_block sd corrs (cellSize ?n) (i, fst (corrs ! i)) (j, fst (corrs ! j)) (bs ! j)"
    using assms(3) by (simp add: nth_enumerate_eq)
  have len: "length (drawn c) = ?n * (2 * ?n)"
    unfolding rows(1) using length_concat_blocks [OF rows(3)] lr by simp
  have at: "drawn c ! (i * (2 * ?n) + (j * 2 + q)) = bs ! j ! q" if "q < 2" for q
  proof -
    have "j * 2 + q < 2 * ?n" using assms(3) that by simp
    then have "concat rows ! (i * (2 * ?n) + (j * 2 + q)) = rows ! i ! (j * 2 + q)"
      using assms(2) lr by (intro nth_concat_blocks [OF rows(3)]) auto
    also have "\<dots> = bs ! j ! q"
      unfolding bs(1) using assms(3) lb that by (intro nth_concat_blocks [OF bs(3)]) auto
    finally show ?thesis unfolding rows(1) .
  qed
  have idx0: "2 * (i * ?n + j) = i * (2 * ?n) + (j * 2 + 0)" by (simp add: algebra_simps)
  have idx1: "2 * (i * ?n + j) + 1 = i * (2 * ?n) + (j * 2 + 1)" by (simp add: algebra_simps)
  have "i * ?n + j < ?n * ?n"
  proof -
    have "i * ?n + j < i * ?n + ?n" using assms(3) by simp
    also have "\<dots> = (i + 1) * ?n" by simp
    also have "\<dots> \<le> ?n * ?n" using assms(2) by (simp add: mult_le_mono1 del: add_mult_distrib mult_Suc)
    finally show ?thesis .
  qed
  then have bound: "2 * (i * ?n + j) + 1 < length (drawn c)"
    unfolding len by (simp add: algebra_simps)
  from fold_draw_label_drawn obtain ds where ds: "img = drawn c @ ds"
    unfolding img by (metis (no_types, lifting) ctx.select_convs(3) ctx.surjective ctx.update_convs(1))
  have n0: "img ! (2 * (i * ?n + j)) = bs ! j ! 0"
  proof -
    have "img ! (2 * (i * ?n + j)) = drawn c ! (2 * (i * ?n + j))"
      unfolding ds using bound by (simp add: nth_append)
    also have "\<dots> = drawn c ! (i * (2 * ?n) + (j * 2 + 0))"
      by (simp only: idx0)
    also have "\<dots> = bs ! j ! 0"
      by (rule at) simp
    finally show ?thesis .
  qed
  have n1: "img ! (2 * (i * ?n + j) + 1) = bs ! j ! 1"
  proof -
    have "img ! (2 * (i * ?n + j) + 1) = drawn c ! (2 * (i * ?n + j) + 1)"
      unfolding ds using bound by (simp add: nth_append)
    also have "\<dots> = drawn c ! (i * (2 * ?n) + (j * 2 + 1))"
      by (simp only: idx1)
    also have "\<dots> = bs ! j ! 1"
      by (rule at) simp
    finally show ?thesis .
  qed
  from bound have "2 * (i * ?n + j) + 1 < length img"
    unfolding ds by simp
  with blk' n0 n1 show ?thesis by blast
qed

subsection \<open>The coefficients of the matrix\<close>












section \<open>The document as a whole\<close>

lemma generatePDF_shape:
  assumes "square_matrix (correlations a)"
  shows "\<exists>doc. generatePDF sd a = Inr doc
     \<and> headings 0 doc =
         [''Data Analysis Report'', ''Summary Statistics'', ''Column Types'', ''Missing Values'']
         @ (if correlations a = [] then [] else [''Correlation Heatmap''])
     \<and> texts doc =
         [''Data Analysis Report'', ''Summary Statistics''] @ concat (map (entry_texts sd) (summary a))
         @ [''Column Types''] @ map (\<lambda>(column, type). column @ '': '' @ type) (column_types a)
         @ [''Missing Values''] @ map (\<lambda>(column, count). column @ '': '' @ show_nat count) (missing_values a)
         @ (if correlations a = [] then [] else [''Correlation Heatmap''])
     \<and> (correlations a = [] \<longrightarrow> images doc = [])
     \<and> (correlations a \<noteq> [] \<longrightarrow>
          (\<exists>img pre y. createCorrelationHeatmap sd (correlations a) = Inr img
             \<and> doc = pre @ [SetFontSize 16, DrawText ''Correlation Heatmap'' 10 y False,
                            AddImage img 10 (y + 10) 190 100]
             \<and> images doc = [img]))"
proof (cases "correlations a = []")
  case True
  have "headings 0 (fst (report_body sd a)) =
         [''Data Analysis Report'', ''Summary Statistics'', ''Column Types'', ''Missing Values'']"
    using report_body_headings [of sd a "[]"] by simp
  with True show ?thesis
    by (simp add: generatePDF_no_heatmap report_body_texts report_body_images)
next
  case False
  from heatmap_total [OF assms] obtain img
    where img: "createCorrelationHeatmap sd (correlations a) = Inr img" ..
  let ?tail = "[SetFontSize 16, DrawText ''Correlation Heatmap'' 10 (snd (report_body sd a) + 10) False,
                AddImage img 10 (snd (report_body sd a) + 20) 190 100]"
  have doc: "generatePDF sd a = Inr (fst (report_body sd a) @ ?tail)"
    using False img by (rule generatePDF_heatmap)
  have h: "headings 0 (fst (report_body sd a) @ ?tail) =
         [''Data Analysis Report'', ''Summary Statistics'', ''Column Types'', ''Missing Values'',
          ''Correlation Heatmap'']"
    by (simp add: report_body_headings)
  have t: "texts (fst (report_body sd a) @ ?tail) = texts (fst (report_body sd a)) @ [''Correlation Heatmap'']"
    by (simp add: texts_append)
  have i: "images (fst (report_body sd a) @ ?tail) = [img]"
    by (simp add: images_append report_body_images)
  have s: "\<exists>pre y. fst (report_body sd a) @ ?tail =
             pre @ [SetFontSize 16, DrawText ''Correlation Heatmap'' 10 y False, AddImage img 10 (y + 10) 190 100]"
    by (intro exI [of _ "fst (report_body sd a)"] exI [of _ "snd (report_body sd a) + 10"]) simp
  from False img h t i s show ?thesis
    unfolding doc by (simp add: report_body_texts)
qed

lemma two_decimals_chars:
  assumes "two_decimals s" and "c \<in> set s"
  shows "is_digit c \<or> c = CHR ''.'' \<or> c = CHR ''-''"
proof -
  from assms(1) obtain d2 d1 body where r: "rev s = d2 # d1 # CHR ''.'' # body"
    and d: "is_digit d1" "is_digit d2"
    and b: "list_all is_digit (if body \<noteq> [] \<and> last body = CHR ''-'' then butlast body else body)"
    by (auto simp: two_decimals_def Let_def split: list.splits)
  from assms(2) have "c \<in> set (rev s)" by simp
  then have "c = d2 \<or> c = d1 \<or> c = CHR ''.'' \<or> c \<in> set body"
    unfolding r by auto
  moreover have "is_digit c \<or> c = CHR ''-''" if "c \<in> set body"
  proof (cases "body \<noteq> [] \<and> last body = CHR ''-''")
    case True
    then have "body = butlast body @ [CHR ''-'']"
      by (metis append_butlast_last_id)
    then have "c \<in> set (butlast body) \<or> c = CHR ''-''"
      using that by (metis Un_iff insert_iff list.set(2) set_append empty_iff list.set(1))
    with b True show ?thesis by (auto simp: list_all_iff)
  next
    case False
    with b that show ?thesis by (auto simp: list_all_iff)
  qed
  ultimately show ?thesis using d by blast
qed

lemma toString_large_exponent: "CHR ''e'' \<in> set (toString_large sd x)"
  by (simp add: toString_large_def case_prod_unfold Let_def)

lemma toFixed2_large_not_two_decimals:
  assumes "10 ^ 21 \<le> \<bar>x\<bar>"
  shows "\<not> two_decimals (toFixed2 sd x)"
proof
  assume two: "two_decimals (toFixed2 sd x)"
  have "CHR ''e'' \<in> set (toFixed2 sd x)"
    using assms by (simp add: toFixed2_def toString_large_exponent)
  from two_decimals_chars [OF two this] show False
    by (simp add: is_digit_def)
qed

section \<open>Cell size: basic facts\<close>

lemma cellSize_pos: "0 < cellSize n"
  by (simp add: cellSize_def)

lemma cellSize_le_50: "cellSize n \<le> 50"
  by (simp add: cellSize_def)

lemma cellSize_small: "n \<le> 10 \<Longrightarrow> cellSize n = 50"
  by (auto simp: cellSize_def min_def field_simps)

lemma cellSize_large: "10 \<le> n \<Longrightarrow> cellSize n = 500 / real n"
  by (auto simp: cellSize_def min_def field_simps)

lemma cellSize_antimono: "m \<le> n \<Longrightarrow> cellSize n \<le> cellSize m"
proof (cases "m = 0")
  case True
  then show ?thesis by (simp add: cellSize_def)
next
  case False
  assume "m \<le> n"
  with False have "500 / real n \<le> 500 / real m"
    by (simp add: frac_le)
  with False \<open>m \<le> n\<close> show ?thesis
    by (auto simp: cellSize_def min_def)
qed

lemma cellSize_below: 
  assumes "0 < b" shows "\<exists>k. cellSize k < b"
proof -
  obtain k :: nat where k: "500 / b < real k"
    using reals_Archimedean2 by blast
  from assms have "0 < 500 / b" by simp
  with k have kpos: "0 < real k" by linarith
  with k assms have "500 / real k < b"
    by (simp add: field_simps)
  moreover from kpos have "cellSize k \<le> 500 / real k"
    by (auto simp: cellSize_def)
  ultimately show ?thesis by (intro exI[of _ k]) linarith
qed

section \<open>Column typing\<close>

lemma is_number_to_numeric:
  "is_number (to_numeric P vs) \<longleftrightarrow> PFail \<notin> parse_cell P ` set vs"
  by (simp add: to_numeric_def Let_def list_ex_iff image_iff)

lemma parse_cell_fail_iff:
  "parse_cell P v = PFail \<longleftrightarrow> (\<exists>s. v = Some s \<and> s \<noteq> [] \<and> P s = PFail)"
  by (cases v) auto

lemma parse_cell_nan_iff:
  "parse_cell P v = PNaN \<longleftrightarrow> v = None \<or> v = Some [] \<or> (\<exists>s. v = Some s \<and> P s = PNaN)"
  by (cases v) auto

lemma column_of_frame:
  "(c, col) \<in> set (convert_columns P (DataFrame data)) \<Longrightarrow>
     col = to_numeric P (raw_column data c)"
  by (auto simp: convert_columns_def DataFrame_def)

lemma as_float_None_iff: "p \<noteq> PFail \<Longrightarrow> as_float p = None \<longleftrightarrow> p = PNaN"
  by (cases p) auto

lemma is_int_not_nan: "is_int p \<Longrightarrow> p \<noteq> PNaN"
  by (cases p) auto

lemma isnull_sum_to_numeric:
  assumes "PFail \<notin> parse_cell P ` set vs"
  shows "isnull_sum (to_numeric P vs) = length (filter (\<lambda>v. parse_cell P v = PNaN) vs)"
proof (cases "list_all is_int (map (parse_cell P) vs)")
  case True
  then have "filter (\<lambda>v. parse_cell P v = PNaN) vs = []"
    by (auto simp: list_all_iff filter_empty_conv dest: is_int_not_nan)
  with True assms show ?thesis
    by (simp add: to_numeric_def Let_def list_ex_iff image_iff)
next
  case False
  have "filter (\<lambda>v. as_float (parse_cell P v) = None) vs = filter (\<lambda>v. parse_cell P v = PNaN) vs"
    using assms by (intro filter_cong refl as_float_None_iff) force
  with False assms show ?thesis
    by (simp add: to_numeric_def Let_def list_ex_iff image_iff filter_map comp_def)
qed

lemma to_numeric_unparsed:
  assumes "PFail \<in> parse_cell P ` set vs"
  shows "to_numeric P vs = ObjCol vs"
  using assms by (auto simp: to_numeric_def Let_def list_ex_iff image_iff)

lemma no_fail_iff:
  "PFail \<notin> parse_cell P ` set (raw_column data c) \<longleftrightarrow>
     (\<forall>r \<in> set data. \<forall>s. map_of r c = Some s \<longrightarrow> s \<noteq> [] \<longrightarrow> P s \<noteq> PFail)"
  by (auto simp: raw_column_def image_iff parse_cell_fail_iff eq_commute[of PFail])

text \<open>
  C1. A column of the table is numeric (dtype \<^verbatim>\<open>int64\<close> or \<^verbatim>\<open>float64\<close>, the columns
  \<^verbatim>\<open>select_dtypes\<close> keeps) exactly when every non-empty value in it parses as a number.
  One non-empty value that does not parse leaves the whole column as the raw strings
  (\<^verbatim>\<open>object\<close>). Empty values do not stand in the way: in a numeric column they are
  missing values, counted together with the cells that parse as NaN.
\<close>

theorem column_numeric_iff:
  assumes "(c, col) \<in> set (convert_columns P (DataFrame data))"
  shows "(is_number col \<longleftrightarrow>
            (\<forall>r \<in> set data. \<forall>s. map_of r c = Some s \<longrightarrow> s \<noteq> [] \<longrightarrow> P s \<noteq> PFail))
       \<and> (is_number col \<longleftrightarrow> dtype col = ''int64'' \<or> dtype col = ''float64'')
       \<and> (\<not> is_number col \<longrightarrow> col = ObjCol (raw_column data c))
       \<and> (is_number col \<longrightarrow>
            isnull_sum col =
              length (filter (\<lambda>r. map_of r c = None \<or> map_of r c = Some [] \<or>
                                   (\<exists>s. map_of r c = Some s \<and> P s = PNaN)) data))"
proof -
  have col: "col = to_numeric P (raw_column data c)"
    using assms by (rule column_of_frame)
  have a: "is_number col \<longleftrightarrow>
            (\<forall>r \<in> set data. \<forall>s. map_of r c = Some s \<longrightarrow> s \<noteq> [] \<longrightarrow> P s \<noteq> PFail)"
    unfolding col is_number_to_numeric by (rule no_fail_iff)
  have b: "is_number col \<longleftrightarrow> dtype col = ''int64'' \<or> dtype col = ''float64''"
    by (cases col) auto
  have c: "\<not> is_number col \<longrightarrow> col = ObjCol (raw_column data c)"
    unfolding col is_number_to_numeric using to_numeric_unparsed by auto
  have d: "is_number col \<longrightarrow>
            isnull_sum col =
              length (filter (\<lambda>r. map_of r c = None \<or> map_of r c = Some [] \<or>
                                   (\<exists>s. map_of r c = Some s \<and> P s = PNaN)) data)"
    unfolding col is_number_to_numeric
    by (auto simp: isnull_sum_to_numeric raw_column_def filter_map comp_def parse_cell_nan_iff)
  from a b c d show ?thesis by blast
qed

text \<open>
  The column \<^verbatim>\<open>["1","2",""]\<close> is numeric with one missing value, and the column
  \<^verbatim>\<open>["1","2","x"]\<close> stays text.
\<close>

theorem column_numeric_iff_witness:
  "(''n'', FloatCol [Some 1, Some 2, None])
      \<in> set (convert_columns digits_parser (DataFrame [[(''n'', ''1'')], [(''n'', ''2'')], [(''n'', [])]]))
   \<and> is_number (FloatCol [Some 1, Some 2, None])
   \<and> isnull_sum (FloatCol [Some 1, Some 2, None]) = 1
   \<and> (''t'', ObjCol [Some ''1'', Some ''2'', Some ''x''])
      \<in> set (convert_columns digits_parser (DataFrame [[(''t'', ''1'')], [(''t'', ''2'')], [(''t'', ''x'')]]))
   \<and> \<not> is_number (ObjCol [Some ''1'', Some ''2'', Some ''x''])"
proof -
  have n: "(''n'', FloatCol [Some 1, Some 2, None])
      \<in> set (convert_columns digits_parser (DataFrame [[(''n'', ''1'')], [(''n'', ''2'')], [(''n'', [])]]))"
    by (simp add: convert_columns_def DataFrame_def columns_of_def raw_column_def first_seen_def
        to_numeric_def digits_parser_def is_digit_def digit_value_def)
  have t: "(''t'', ObjCol [Some ''1'', Some ''2'', Some ''x''])
      \<in> set (convert_columns digits_parser (DataFrame [[(''t'', ''1'')], [(''t'', ''2'')], [(''t'', ''x'')]]))"
    by (simp add: convert_columns_def DataFrame_def columns_of_def raw_column_def first_seen_def
        to_numeric_def digits_parser_def is_digit_def digit_value_def)
  from column_numeric_iff [OF n] column_numeric_iff [OF t] n t show ?thesis
    by simp
qed

section \<open>Evaluating the examples\<close>

lemma sample_run: "analyzeData digits_parser sample_rows = Inr sample_analysis"
  by (simp add: py_defs sample_rows_def sample_analysis_def)

lemma mixed_run: "analyzeData digits_parser mixed_rows = Inr mixed_analysis"
  by (simp add: py_defs mixed_rows_def mixed_analysis_def)

lemma sample_numeric: "numeric_columns digits_parser sample_rows = [''a'', ''b'']"
  by (simp add: py_defs numeric_columns_def sample_rows_def)

lemma mixed_numeric: "numeric_columns digits_parser mixed_rows = [''n'']"
  by (simp add: py_defs numeric_columns_def mixed_rows_def)

lemma numeric_columns_iff:
  "c \<in> set (numeric_columns P data) \<longleftrightarrow>
     c \<in> set (columns_of data) \<and> is_number (to_numeric P (raw_column data c))"
  by (force simp: numeric_columns_def select_number_def convert_columns_def DataFrame_def image_iff)

lemma describe_numeric_keys:
  "map fst (describe_numeric xs) = [''count'', ''mean'', ''std'', ''min'', ''25%'', ''50%'', ''75%'', ''max'']"
  by (simp add: describe_numeric_def)

lemma describe_object_keys:
  "map fst (describe_object cells) = [''count'', ''unique'', ''top'', ''freq'']"
  by (simp add: describe_object_def Let_def)

lemma analyzeData_no_columns: "columns_of data = [] \<Longrightarrow> analyzeData P data = Inl ValueError"
  by (simp add: analyzeData_def run_python_def describe_def convert_columns_def DataFrame_def)

lemma blank_run: "analyzeData digits_parser blank_rows = Inr blank_analysis"
  by (simp add: py_defs blank_rows_def blank_analysis_def)



section \<open>Missing values\<close>

text \<open>
  C2, as amended. The \<^verbatim>\<open>missing_values\<close> of the result has exactly one entry per column of
  the table (its keys are the columns, each once), for numeric and text columns alike, and
  the count of a column is its number of NaN cells (\<^verbatim>\<open>isnull\<close>), which depends on the kind of
  the column. In a numeric column (no non-empty cell fails to parse) these are the cells
  of the rows that have no value, an empty value or a value that reads as NaN there, so an
  empty cell is counted and a parsed zero is not. In a text column they are the cells of
  the rows that lack the key, so an empty string is not counted; when every row has the
  key, as in the records of a CSV file, the count of a text column is 0.
\<close>

theorem missing_values_per_column:
  assumes "analyzeData P data = Inr a"
  shows "map fst (missing_values a) = columns_of data
       \<and> distinct (map fst (missing_values a))
       \<and> (\<forall>c \<in> set (columns_of data).
            map_of (missing_values a) c = Some (isnull_sum (to_numeric P (raw_column data c)))
          \<and> isnull_sum (to_numeric P (raw_column data c)) =
              (if \<forall>r \<in> set data. \<forall>s. map_of r c = Some s \<longrightarrow> s \<noteq> [] \<longrightarrow> P s \<noteq> PFail
               then length (filter (\<lambda>r. map_of r c = None \<or> map_of r c = Some [] \<or>
                                        (\<exists>s. map_of r c = Some s \<and> P s = PNaN)) data)
               else length (filter (\<lambda>r. map_of r c = None) data))
          \<and> ((\<exists>r \<in> set data. \<exists>s. map_of r c = Some s \<and> s \<noteq> [] \<and> P s = PFail)
                \<and> (\<forall>r \<in> set data. map_of r c \<noteq> None)
              \<longrightarrow> map_of (missing_values a) c = Some 0))"
proof -
  from assms obtain r where r: "run_python P data = Inr r" and j: "json_roundtrip r = Inr a"
    by (rule analyzeData_Inr)
  have mv: "missing_values a = map (\<lambda>(k, c). (k, isnull_sum c)) (convert_columns P (DataFrame data))"
    using json_roundtrip_Inr(1)[OF j] run_python_Inr(3)[OF r] by simp
  have keys: "map fst (missing_values a) = columns_of data"
    unfolding mv using frame_keys[of P data] by (simp add: comp_def case_prod_unfold)
  have dist: "distinct (map fst (missing_values a))"
    unfolding keys columns_of_def by (rule distinct_first_seen)
  have count: "map_of (missing_values a) c = Some (isnull_sum (to_numeric P (raw_column data c)))"
    if "c \<in> set (columns_of data)" for c
    unfolding mv map_of_map_snd by (simp add: frame_lookup[OF that])
  have raw: "isnull_sum (to_numeric P (raw_column data c)) =
              (if \<forall>r \<in> set data. \<forall>s. map_of r c = Some s \<longrightarrow> s \<noteq> [] \<longrightarrow> P s \<noteq> PFail
               then length (filter (\<lambda>r. map_of r c = None \<or> map_of r c = Some [] \<or>
                                        (\<exists>s. map_of r c = Some s \<and> P s = PNaN)) data)
               else length (filter (\<lambda>r. map_of r c = None) data))" for c
  proof (cases "PFail \<in> parse_cell P ` set (raw_column data c)")
    case True
    then have "to_numeric P (raw_column data c) = ObjCol (raw_column data c)"
      by (rule to_numeric_unparsed)
    moreover from True have "\<not> (\<forall>r \<in> set data. \<forall>s. map_of r c = Some s \<longrightarrow> s \<noteq> [] \<longrightarrow> P s \<noteq> PFail)"
      using no_fail_iff[of P data c] by blast
    ultimately show ?thesis
      by (auto simp: raw_column_def filter_map comp_def)
  next
    case False
    then have "\<forall>r \<in> set data. \<forall>s. map_of r c = Some s \<longrightarrow> s \<noteq> [] \<longrightarrow> P s \<noteq> PFail"
      using no_fail_iff[of P data c] by blast
    with False show ?thesis
      by (simp add: isnull_sum_to_numeric) (simp add: raw_column_def filter_map comp_def parse_cell_nan_iff)
  qed
  have textcol: "map_of (missing_values a) c = Some 0"
    if "c \<in> set (columns_of data)"
      and "\<exists>r \<in> set data. \<exists>s. map_of r c = Some s \<and> s \<noteq> [] \<and> P s = PFail"
      and "\<forall>r \<in> set data. map_of r c \<noteq> None" for c
  proof -
    from that(3) have none: "filter (\<lambda>r. map_of r c = None) data = []"
      by (auto simp: filter_empty_conv)
    from that(2)
    have neg: "\<not> (\<forall>r \<in> set data. \<forall>s. map_of r c = Some s \<longrightarrow> s \<noteq> [] \<longrightarrow> P s \<noteq> PFail)"
      by blast
    have "isnull_sum (to_numeric P (raw_column data c)) = length (filter (\<lambda>r. map_of r c = None) data)"
      using raw [of c] unfolding if_not_P [OF neg] .
    with count [OF that(1)] none show ?thesis by simp
  qed
  from keys dist count raw textcol show ?thesis by blast
qed

theorem missing_values_per_column_witness:
  "analyzeData digits_parser mixed_rows = Inr mixed_analysis
   \<and> columns_of mixed_rows = [''n'', ''t'']
   \<and> map fst (missing_values mixed_analysis) = [''n'', ''t'']
   \<and> map_of (missing_values mixed_analysis) ''n'' = Some 1
   \<and> length (filter (\<lambda>r. map_of r ''n'' = None \<or> map_of r ''n'' = Some [] \<or>
                        (\<exists>s. map_of r ''n'' = Some s \<and> digits_parser s = PNaN)) mixed_rows) = 1
   \<and> (\<exists>r \<in> set mixed_rows. \<exists>s. map_of r ''t'' = Some s \<and> s \<noteq> [] \<and> digits_parser s = PFail)
   \<and> map_of (missing_values mixed_analysis) ''t'' = Some 0
   \<and> length (filter (\<lambda>r. map_of r ''t'' = None) mixed_rows) = 0"
proof -
  have cols: "columns_of mixed_rows = [''n'', ''t'']"
    by (simp add: mixed_rows_def columns_of_def first_seen_def)
  have n: "\<forall>r \<in> set mixed_rows. \<forall>s. map_of r ''n'' = Some s \<longrightarrow> s \<noteq> [] \<longrightarrow> digits_parser s \<noteq> PFail"
    by (simp add: mixed_rows_def digits_parser_def is_digit_def)
  have t: "\<exists>r \<in> set mixed_rows. \<exists>s. map_of r ''t'' = Some s \<and> s \<noteq> [] \<and> digits_parser s = PFail"
    by (simp add: mixed_rows_def digits_parser_def is_digit_def)
  then have t': "\<not> (\<forall>r \<in> set mixed_rows. \<forall>s. map_of r ''t'' = Some s \<longrightarrow> s \<noteq> [] \<longrightarrow> digits_parser s \<noteq> PFail)"
    by blast
  have full: "\<forall>r \<in> set mixed_rows. map_of r ''t'' \<noteq> None"
    by (simp add: mixed_rows_def)
  note th = missing_values_per_column [OF mixed_run, unfolded cols]
  from th have keys: "map fst (missing_values mixed_analysis) = [''n'', ''t'']"
    by blast
  have inn: "''n'' \<in> set [''n'', ''t'']" and int: "''t'' \<in> set [''n'', ''t'']"
    by simp_all
  note cn = bspec [OF th [THEN conjunct2, THEN conjunct2] inn]
  note ct = bspec [OF th [THEN conjunct2, THEN conjunct2] int]
  have mn: "map_of (missing_values mixed_analysis) ''n'' = Some 1"
    by (simp add: mixed_analysis_def)
  from cn [THEN conjunct1] cn [THEN conjunct2, THEN conjunct1, unfolded if_P [OF n]] mn
  have ln: "length (filter (\<lambda>r. map_of r ''n'' = None \<or> map_of r ''n'' = Some [] \<or>
                        (\<exists>s. map_of r ''n'' = Some s \<and> digits_parser s = PNaN)) mixed_rows) = 1"
    by simp
  from ct [THEN conjunct2, THEN conjunct2] t full
  have t0: "map_of (missing_values mixed_analysis) ''t'' = Some 0"
    by blast
  from ct [THEN conjunct1] ct [THEN conjunct2, THEN conjunct1, unfolded if_not_P [OF t']] t0
  have lt: "length (filter (\<lambda>r. map_of r ''t'' = None) mixed_rows) = 0"
    by simp
  from mixed_run cols keys mn ln t t0 lt show ?thesis
    by (intro conjI)
qed

text \<open>
  The claim as stated fails: it counts the absent cells of a column by one notion of an
  absent cell for all columns. In \<open>blank_rows\<close> the second row has the same empty cell in
  \<open>n\<close> and in \<open>t\<close>, and every row has both keys. The count is 1 for the numeric column \<open>n\<close>,
  where no row lacks the key, and 0 for the text column \<open>t\<close>, where one cell is empty; no
  property of single cells gives both counts.
\<close>

theorem empty_cell_counted_by_column_kind:
  "analyzeData digits_parser blank_rows = Inr blank_analysis
   \<and> raw_column blank_rows ''n'' = [Some ''1'', Some [], Some ''1'']
   \<and> raw_column blank_rows ''t'' = [Some ''1'', Some [], Some ''x'']
   \<and> map_of (missing_values blank_analysis) ''n'' = Some 1
   \<and> map_of (missing_values blank_analysis) ''t'' = Some 0
   \<and> length (filter (\<lambda>v. v = None) (raw_column blank_rows ''n'')) = 0
   \<and> length (filter (\<lambda>v. v = None \<or> v = Some []) (raw_column blank_rows ''t'')) = 1
   \<and> \<not> (\<exists>absent. \<forall>c \<in> set (columns_of blank_rows).
            map_of (missing_values blank_analysis) c =
              Some (length (filter absent (raw_column blank_rows c))))"
proof -
  have n: "raw_column blank_rows ''n'' = [Some ''1'', Some [], Some ''1'']"
    by (simp add: blank_rows_def raw_column_def)
  have t: "raw_column blank_rows ''t'' = [Some ''1'', Some [], Some ''x'']"
    by (simp add: blank_rows_def raw_column_def)
  have cols: "columns_of blank_rows = [''n'', ''t'']"
    by (simp add: blank_rows_def columns_of_def first_seen_def)
  have mn: "map_of (missing_values blank_analysis) ''n'' = Some 1"
    and mt: "map_of (missing_values blank_analysis) ''t'' = Some 0"
    by (simp_all add: blank_analysis_def)
  have none: "\<not> (\<exists>absent. \<forall>c \<in> set (columns_of blank_rows).
            map_of (missing_values blank_analysis) c =
              Some (length (filter absent (raw_column blank_rows c))))"
  proof
    assume "\<exists>absent. \<forall>c \<in> set (columns_of blank_rows).
            map_of (missing_values blank_analysis) c =
              Some (length (filter absent (raw_column blank_rows c)))"
    then obtain absent where
      a: "length (filter absent [Some ''1'', Some [], Some ''1'']) = 1"
      and b: "length (filter absent [Some ''1'', Some [], Some ''x'']) = 0"
      unfolding cols using mn mt n t by auto
    from b have "\<not> absent (Some ''1'')" "\<not> absent (Some [])"
      by (auto split: if_splits)
    with a show False by simp
  qed
  from blank_run n t mn mt none show ?thesis
    by (simp add: n t)
qed

section \<open>Correlations and the heatmap section\<close>

text \<open>
  C3. For a table on which \<^verbatim>\<open>analyzeData\<close> returns: with no or one numeric column the
  correlation matrix of the result is empty, otherwise its keys are the numeric columns.
  \<^verbatim>\<open>generatePDF\<close> then returns a document, and the document has the heading
  \<^verbatim>\<open>Correlation Heatmap\<close> and an image exactly when the table has at least two numeric
  columns; with fewer, \<^verbatim>\<open>createCorrelationHeatmap\<close> is not called and nothing of the
  section is written.
\<close>

theorem heatmap_iff_two_numeric:
  assumes "analyzeData P data = Inr a"
  shows "(length (numeric_columns P data) \<le> 1 \<longrightarrow> correlations a = [])
       \<and> (2 \<le> length (numeric_columns P data) \<longrightarrow>
            map fst (correlations a) = numeric_columns P data \<and> correlations a \<noteq> [])
       \<and> (\<exists>doc. generatePDF sd a = Inr doc
            \<and> (''Correlation Heatmap'' \<in> set (headings 0 doc) \<longleftrightarrow> 2 \<le> length (numeric_columns P data))
            \<and> (images doc \<noteq> [] \<longleftrightarrow> 2 \<le> length (numeric_columns P data)))"
proof -
  have keys: "map fst (correlations a) =
                (if length (numeric_columns P data) > 1 then numeric_columns P data else [])"
    using analysis_correlation_keys [OF assms] by (simp add: numeric_columns_def)
  then have empty: "correlations a = [] \<longleftrightarrow> length (numeric_columns P data) \<le> 1"
    by (cases "length (numeric_columns P data) > 1") auto
  from generatePDF_shape [OF analysis_square [OF assms], of sd] obtain doc
    where doc: "generatePDF sd a = Inr doc"
      and h: "headings 0 doc =
         [''Data Analysis Report'', ''Summary Statistics'', ''Column Types'', ''Missing Values'']
         @ (if correlations a = [] then [] else [''Correlation Heatmap''])"
      and i0: "correlations a = [] \<longrightarrow> images doc = []"
      and i1: "correlations a \<noteq> [] \<longrightarrow>
          (\<exists>img pre y. createCorrelationHeatmap sd (correlations a) = Inr img
             \<and> doc = pre @ [SetFontSize 16, DrawText ''Correlation Heatmap'' 10 y False,
                            AddImage img 10 (y + 10) 190 100]
             \<and> images doc = [img])"
    by blast
  have hh: "''Correlation Heatmap'' \<in> set (headings 0 doc) \<longleftrightarrow> correlations a \<noteq> []"
    unfolding h by simp
  have ii: "images doc \<noteq> [] \<longleftrightarrow> correlations a \<noteq> []"
    using i0 i1 by auto
  from keys empty doc hh ii show ?thesis
    by (intro conjI impI exI [of _ doc]) auto
qed

theorem heatmap_iff_two_numeric_witness:
  "analyzeData digits_parser sample_rows = Inr sample_analysis
   \<and> length (numeric_columns digits_parser sample_rows) = 2
   \<and> map fst (correlations sample_analysis) = [''a'', ''b'']
   \<and> (\<exists>doc. generatePDF shortest_1e21 sample_analysis = Inr doc
         \<and> ''Correlation Heatmap'' \<in> set (headings 0 doc) \<and> images doc \<noteq> [])
   \<and> analyzeData digits_parser mixed_rows = Inr mixed_analysis
   \<and> length (numeric_columns digits_parser mixed_rows) = 1
   \<and> correlations mixed_analysis = []
   \<and> (\<exists>doc. generatePDF shortest_1e21 mixed_analysis = Inr doc
         \<and> ''Correlation Heatmap'' \<notin> set (headings 0 doc) \<and> images doc = [])"
  using heatmap_iff_two_numeric [OF sample_run, of shortest_1e21]
    heatmap_iff_two_numeric [OF mixed_run, of shortest_1e21]
  by (simp add: sample_run mixed_run sample_numeric mixed_numeric)

section \<open>The summary\<close>

text \<open>
  C4, as amended. For a table on which \<^verbatim>\<open>analyzeData\<close> returns: when the table has a
  numeric column, the summary has one entry per numeric column, with the statistics
  count, mean, std, min, 25%, 50%, 75% and max, and no entry for a text column. When
  the table has no numeric column, \<^verbatim>\<open>describe()\<close> describes the text columns instead:
  the summary has one entry per column, with count, unique, top and freq.
\<close>

theorem summary_columns:
  assumes "analyzeData P data = Inr a"
  shows "(numeric_columns P data \<noteq> [] \<longrightarrow>
            map fst (summary a) = numeric_columns P data
          \<and> (\<forall>(c, stats) \<in> set (summary a).
               map fst stats = [''count'', ''mean'', ''std'', ''min'', ''25%'', ''50%'', ''75%'', ''max''])
          \<and> (\<forall>c \<in> set (columns_of data).
               c \<in> fst ` set (summary a) \<longleftrightarrow> is_number (to_numeric P (raw_column data c))))
       \<and> (numeric_columns P data = [] \<longrightarrow>
            map fst (summary a) = columns_of data
          \<and> (\<forall>(c, stats) \<in> set (summary a). map fst stats = [''count'', ''unique'', ''top'', ''freq'']))"
proof -
  let ?df = "convert_columns P (DataFrame data)"
  from assms obtain r where r: "run_python P data = Inr r" and j: "json_roundtrip r = Inr a"
    by (rule analyzeData_Inr)
  have d: "describe ?df = Inr (py_summary r)" by (rule run_python_Inr(1) [OF r])
  then have ne: "?df \<noteq> []" by (auto simp: describe_def)
  have js: "json_dict (json_dict json_val) (py_summary r) = Some (summary a)"
    by (rule json_roundtrip_Inr(3) [OF j])
  have keys: "map fst (summary a) = map fst (py_summary r)"
    using js by (rule json_dict_keys)
  have entry: "\<exists>pstats. (c, pstats) \<in> set (py_summary r) \<and> map fst stats = map fst pstats"
    if "(c, stats) \<in> set (summary a)" for c stats
    using json_dict_values [OF js that] json_dict_keys by blast
  show ?thesis
  proof (cases "numeric_columns P data = []")
    case True
    then have sel: "select_number ?df = []" by (simp add: numeric_columns_def)
    with d ne have py: "py_summary r = map (\<lambda>(k, c). (k, describe_object (obj_cells c))) ?df"
      by (simp add: describe_def)
    have k: "map fst (summary a) = columns_of data"
      unfolding keys py using frame_keys [of P data] by (simp add: comp_def case_prod_unfold)
    have s: "map fst stats = [''count'', ''unique'', ''top'', ''freq'']"
      if "(c, stats) \<in> set (summary a)" for c stats
      using entry [OF that] unfolding py by (auto simp: describe_object_keys)
    from True k s show ?thesis by auto
  next
    case False
    then have sel: "select_number ?df \<noteq> []" by (simp add: numeric_columns_def)
    with d ne have py: "py_summary r =
        map (\<lambda>(k, c). (k, describe_numeric (somes (float_cells c)))) (select_number ?df)"
      by (simp add: describe_def)
    have k: "map fst (summary a) = numeric_columns P data"
      unfolding keys py by (simp add: numeric_columns_def comp_def case_prod_unfold)
    have s: "map fst stats = [''count'', ''mean'', ''std'', ''min'', ''25%'', ''50%'', ''75%'', ''max'']"
      if "(c, stats) \<in> set (summary a)" for c stats
      using entry [OF that] unfolding py by (auto simp: describe_numeric_keys)
    have m: "c \<in> fst ` set (summary a) \<longleftrightarrow> is_number (to_numeric P (raw_column data c))"
      if "c \<in> set (columns_of data)" for c
    proof -
      have "fst ` set (summary a) = set (map fst (summary a))" by simp
      also have "\<dots> = set (numeric_columns P data)" by (simp only: k)
      finally show ?thesis using that by (simp add: numeric_columns_iff)
    qed
    from False k s m show ?thesis by auto
  qed
qed

theorem summary_columns_witness:
  "analyzeData digits_parser mixed_rows = Inr mixed_analysis
   \<and> numeric_columns digits_parser mixed_rows = [''n'']
   \<and> map fst (summary mixed_analysis) = [''n'']
   \<and> ''t'' \<in> set (columns_of mixed_rows)
   \<and> ''t'' \<notin> fst ` set (summary mixed_analysis)
   \<and> \<not> is_number (to_numeric digits_parser (raw_column mixed_rows ''t''))
   \<and> analyzeData digits_parser [[(''name'', ''x'')], [(''name'', ''y'')], [(''name'', ''x'')]] =
       Inr \<lparr> summary = [(''name'', [(''count'', JNum 3), (''unique'', JNum 2),
                                    (''top'', JStr ''x''), (''freq'', JNum 2)])],
             column_types = [(''name'', ''object'')],
             missing_values = [(''name'', 0)],
             correlations = [] \<rparr>
   \<and> numeric_columns digits_parser [[(''name'', ''x'')], [(''name'', ''y'')], [(''name'', ''x'')]] = []
   \<and> columns_of [[(''name'', ''x'')], [(''name'', ''y'')], [(''name'', ''x'')]] = [''name'']"
proof -
  let ?rows = "[[(''name'', ''x'')], [(''name'', ''y'')], [(''name'', ''x'')]]"
  let ?a = "\<lparr> summary = [(''name'', [(''count'', JNum 3), (''unique'', JNum 2),
                                    (''top'', JStr ''x''), (''freq'', JNum 2)])],
             column_types = [(''name'', ''object'')],
             missing_values = [(''name'', 0)],
             correlations = [] \<rparr>"
  have run: "analyzeData digits_parser ?rows = Inr ?a"
    by (simp add: py_defs)
  have none: "numeric_columns digits_parser ?rows = []"
    by (simp add: py_defs numeric_columns_def)
  have t: "''t'' \<in> set (columns_of mixed_rows)"
    by (simp add: mixed_rows_def columns_of_def first_seen_def)
  from summary_columns [OF run] none have cols: "columns_of ?rows = [''name'']"
    by simp
  from summary_columns [OF mixed_run] mixed_numeric t
  have m: "map fst (summary mixed_analysis) = [''n'']"
    and n: "''t'' \<in> fst ` set (summary mixed_analysis) \<longleftrightarrow>
              is_number (to_numeric digits_parser (raw_column mixed_rows ''t''))"
    by auto
  have out: "''t'' \<notin> fst ` set (summary mixed_analysis)"
    unfolding set_map [symmetric] m by simp
  from mixed_run mixed_numeric m t out n run none cols show ?thesis
    by (intro conjI) auto
qed

text \<open>
  The claim as stated fails on a table of text columns only: the column \<^verbatim>\<open>name\<close> is
  text and has a summary entry.
\<close>

theorem text_only_table_has_summary:
  "analyzeData digits_parser [[(''name'', ''x'')], [(''name'', ''y'')], [(''name'', ''x'')]] =
     Inr \<lparr> summary = [(''name'', [(''count'', JNum 3), (''unique'', JNum 2),
                                  (''top'', JStr ''x''), (''freq'', JNum 2)])],
           column_types = [(''name'', ''object'')],
           missing_values = [(''name'', 0)],
           correlations = [] \<rparr>
   \<and> numeric_columns digits_parser [[(''name'', ''x'')], [(''name'', ''y'')], [(''name'', ''x'')]] = []"
  by (simp add: py_defs numeric_columns_def)

section \<open>Errors\<close>

text \<open>
  C5, as amended. The code has no error types of its own. For zero rows \<^verbatim>\<open>parseCSV\<close>
  resolves with the empty list, so the table is built; the analysis then fails with the
  ValueError that \<^verbatim>\<open>describe()\<close> raises on a frame without columns, as it does for every
  table with zero columns. An error of the CSV stream rejects \<^verbatim>\<open>parseCSV\<close>. Whatever
  \<^verbatim>\<open>parseCSV\<close> or \<^verbatim>\<open>analyzeData\<close> fails with reaches the request handler unchanged, which
  answers with status 500; a document is sent only when parsing, analysis and layout all
  returned, and then the table had a row and a column.
\<close>

theorem errors_reach_the_handler:
  "parseCSV [End] = Some (Inr [])
   \<and> analyzeData P [] = Inl ValueError
   \<and> handle_analyze P sd (Some [End]) = Status500 ValueError
   \<and> (columns_of data = [] \<longrightarrow> analyzeData P data = Inl ValueError)
   \<and> (parseCSV es = Some (Inl e) \<longrightarrow> handle_analyze P sd (Some es) = Status500 e)
   \<and> (parseCSV es = Some (Inr data) \<and> analyzeData P data = Inl e \<longrightarrow>
        handle_analyze P sd (Some es) = Status500 e)
   \<and> (handle_analyze P sd (Some es) = Pdf doc \<longrightarrow>
        (\<exists>data a. parseCSV es = Some (Inr data) \<and> data \<noteq> [] \<and> columns_of data \<noteq> []
           \<and> analyzeData P data = Inr a \<and> generatePDF sd a = Inr doc))"
proof -
  have z: "analyzeData P [] = Inl ValueError"
    by (rule analyzeData_no_columns) (simp add: columns_of_def first_seen_def)
  have p: "parseCSV [End] = Some (Inr [])" by (simp add: parseCSV_def)
  have h: "handle_analyze P sd (Some [End]) = Status500 ValueError"
    by (simp add: handle_analyze_def p z)
  have e1: "parseCSV es = Some (Inl e) \<longrightarrow> handle_analyze P sd (Some es) = Status500 e"
    by (simp add: handle_analyze_def)
  have e2: "parseCSV es = Some (Inr data) \<and> analyzeData P data = Inl e \<longrightarrow>
        handle_analyze P sd (Some es) = Status500 e"
    by (simp add: handle_analyze_def)
  have ok: "handle_analyze P sd (Some es) = Pdf doc \<longrightarrow>
        (\<exists>data a. parseCSV es = Some (Inr data) \<and> data \<noteq> [] \<and> columns_of data \<noteq> []
           \<and> analyzeData P data = Inr a \<and> generatePDF sd a = Inr doc)"
  proof
    assume "handle_analyze P sd (Some es) = Pdf doc"
    then obtain data a where d: "parseCSV es = Some (Inr data)"
      and a: "analyzeData P data = Inr a" and g: "generatePDF sd a = Inr doc"
      by (auto simp: handle_analyze_def split: option.splits sum.splits)
    from a analyzeData_no_columns [of data P] have c: "columns_of data \<noteq> []" by auto
    then have "data \<noteq> []" by (auto simp: columns_of_def first_seen_def)
    with d a g c show "\<exists>data a. parseCSV es = Some (Inr data) \<and> data \<noteq> [] \<and> columns_of data \<noteq> []
           \<and> analyzeData P data = Inr a \<and> generatePDF sd a = Inr doc" by blast
  qed
  from p z h analyzeData_no_columns e1 e2 ok show ?thesis by blast
qed

theorem errors_reach_the_handler_witness:
  "parseCSV [Failed ''Invalid Record Length''] = Some (Inl (CsvError ''Invalid Record Length''))
   \<and> handle_analyze digits_parser shortest_1e21 (Some [Failed ''Invalid Record Length'']) =
       Status500 (CsvError ''Invalid Record Length'')
   \<and> parseCSV [Data [(''a'', ''1'')], End] = Some (Inr [[(''a'', ''1'')]])
   \<and> analyzeData digits_parser [[(''a'', ''1'')]] = Inl SyntaxError
   \<and> handle_analyze digits_parser shortest_1e21 (Some [Data [(''a'', ''1'')], End]) = Status500 SyntaxError
   \<and> columns_of [[]] = []
   \<and> analyzeData digits_parser [[]] = Inl ValueError
   \<and> (\<exists>doc. handle_analyze digits_parser shortest_1e21 (Some (map Data mixed_rows @ [End])) = Pdf doc
         \<and> (\<exists>data a. parseCSV (map Data mixed_rows @ [End]) = Some (Inr data) \<and> data \<noteq> []
               \<and> analyzeData digits_parser data = Inr a \<and> generatePDF shortest_1e21 a = Inr doc))"
proof -
  have p1: "parseCSV [Failed ''Invalid Record Length''] = Some (Inl (CsvError ''Invalid Record Length''))"
    by (simp add: parseCSV_def)
  have p2: "parseCSV [Data [(''a'', ''1'')], End] = Some (Inr [[(''a'', ''1'')]])"
    by (simp add: parseCSV_def)
  have a2: "analyzeData digits_parser [[(''a'', ''1'')]] = Inl SyntaxError"
    by (simp add: py_defs)
  have c3: "columns_of [[]] = []"
    by (simp add: columns_of_def first_seen_def)
  have p4: "parseCSV (map Data mixed_rows @ [End]) = Some (Inr mixed_rows)"
    by (simp add: parseCSV_def mixed_rows_def)
  from generatePDF_shape [OF analysis_square [OF mixed_run], of shortest_1e21]
  obtain doc where g: "generatePDF shortest_1e21 mixed_analysis = Inr doc" by blast
  have h4: "handle_analyze digits_parser shortest_1e21 (Some (map Data mixed_rows @ [End])) = Pdf doc"
    by (simp add: handle_analyze_def p4 mixed_run g)
  note t1 = errors_reach_the_handler
    [of digits_parser shortest_1e21 "[[]]" "[Failed ''Invalid Record Length'']"
        "CsvError ''Invalid Record Length''" doc]
  note t2 = errors_reach_the_handler
    [of digits_parser shortest_1e21 "[[(''a'', ''1'')]]" "[Data [(''a'', ''1'')], End]" SyntaxError doc]
  note t3 = errors_reach_the_handler
    [of digits_parser shortest_1e21 mixed_rows "map Data mixed_rows @ [End]" SyntaxError doc]
  from t1 t2 t3 p1 p2 a2 c3 h4 show ?thesis
    by (intro conjI exI [of _ doc]) blast+
qed

text \<open>
  The claim as stated fails on zero rows: building the table does not fail, and the error
  that ends the request is the analysis's ValueError.
\<close>

theorem empty_table_is_built:
  "parseCSV [End] = Some (Inr [])
   \<and> convert_columns digits_parser (DataFrame []) = []
   \<and> describe (convert_columns digits_parser (DataFrame [])) = Inl ValueError
   \<and> analyzeData digits_parser [] = Inl ValueError
   \<and> handle_analyze digits_parser shortest_1e21 (Some [End]) = Status500 ValueError"
  by (simp add: parseCSV_def handle_analyze_def py_defs)

section \<open>A column with zero variance\<close>

text \<open>
  C6. The table with the constant column \<^verbatim>\<open>a = 1, 1, 1\<close> and the column \<^verbatim>\<open>b = 1, 2, 3\<close>:
  \<^verbatim>\<open>corr()\<close> gives NaN for every coefficient that involves \<^verbatim>\<open>a\<close>, \<^verbatim>\<open>json.dumps\<close> writes
  them as \<^verbatim>\<open>NaN\<close>, and \<^verbatim>\<open>JSON.parse\<close> rejects the text: \<^verbatim>\<open>analyzeData\<close> throws a
  SyntaxError instead of returning.
\<close>

theorem zero_variance_column_fails:
  "run_python digits_parser
     [[(''a'', ''1''), (''b'', ''1'')], [(''a'', ''1''), (''b'', ''2'')], [(''a'', ''1''), (''b'', ''3'')]] =
     Inr \<lparr> py_summary =
             [(''a'', [(''count'', PyNum 3), (''mean'', PyNum 1), (''std'', PyNum 0), (''min'', PyNum 1),
                      (''25%'', PyNum 1), (''50%'', PyNum 1), (''75%'', PyNum 1), (''max'', PyNum 1)]),
              (''b'', [(''count'', PyNum 3), (''mean'', PyNum 2), (''std'', PyNum 1), (''min'', PyNum 1),
                      (''25%'', PyNum (3 / 2)), (''50%'', PyNum 2), (''75%'', PyNum (5 / 2)), (''max'', PyNum 3)])],
           py_column_types = [(''a'', ''int64''), (''b'', ''int64'')],
           py_missing_values = [(''a'', 0), (''b'', 0)],
           py_correlations =
             [(''a'', [(''a'', PyNaN), (''b'', PyNaN)]), (''b'', [(''a'', PyNaN), (''b'', PyNum 1)])] \<rparr>
   \<and> analyzeData digits_parser
     [[(''a'', ''1''), (''b'', ''1'')], [(''a'', ''1''), (''b'', ''2'')], [(''a'', ''1''), (''b'', ''3'')]] =
     Inl SyntaxError"
  by (simp add: py_defs)

section \<open>The sections of the report\<close>

text \<open>
  C7, as amended. For an analysis with a square correlation matrix \<^verbatim>\<open>generatePDF\<close>
  returns a document whose headings are, in this order, the title, Summary Statistics,
  Column Types, Missing Values and, exactly when the matrix is not empty, Correlation
  Heatmap, which is then followed by the one image of the document. Its texts are, in
  order: the title; the summary heading and per column the column name and one line per
  statistic; the types heading and one line per column; the missing-values heading and
  one line per column; the heatmap heading when there is one. A statistic that is a number
  of magnitude below \<open>10\<^sup>2\<^sup>1\<close> is written with exactly two decimals, as the nearest
  hundredth; a statistic that is a string is written as it is.
\<close>

theorem report_sections_in_order:
  assumes "square_matrix (correlations a)"
  shows "(\<exists>doc. generatePDF sd a = Inr doc
     \<and> headings 0 doc =
         [''Data Analysis Report'', ''Summary Statistics'', ''Column Types'', ''Missing Values'']
         @ (if correlations a = [] then [] else [''Correlation Heatmap''])
     \<and> texts doc =
         [''Data Analysis Report'', ''Summary Statistics''] @ concat (map (entry_texts sd) (summary a))
         @ [''Column Types''] @ map (\<lambda>(column, type). column @ '': '' @ type) (column_types a)
         @ [''Missing Values''] @ map (\<lambda>(column, count). column @ '': '' @ show_nat count) (missing_values a)
         @ (if correlations a = [] then [] else [''Correlation Heatmap''])
     \<and> (correlations a = [] \<longrightarrow> images doc = [])
     \<and> (correlations a \<noteq> [] \<longrightarrow>
          (\<exists>img pre y. createCorrelationHeatmap sd (correlations a) = Inr img
             \<and> doc = pre @ [SetFontSize 16, DrawText ''Correlation Heatmap'' 10 y False,
                            AddImage img 10 (y + 10) 190 100]
             \<and> images doc = [img])))
   \<and> entry_texts sd (column, stats) = (column @ '':'') # map (stat_text sd) stats
   \<and> stat_text sd (stat, JStr s) = ''  '' @ stat @ '': '' @ s
   \<and> (\<bar>x\<bar> < 10 ^ 21 \<longrightarrow>
         stat_text sd (stat, JNum x) = ''  '' @ stat @ '': '' @ toFixed2 sd x
       \<and> two_decimals (toFixed2 sd x)
       \<and> toFixed2 sd x =
           (if x < 0 then ''-'' else []) @ show_nat (hundredths x div 100) @ ''.'' @
           [digit_char (hundredths x mod 100 div 10), digit_char (hundredths x mod 10)]
       \<and> \<bar>real (hundredths x) / 100 - \<bar>x\<bar>\<bar> \<le> 1 / 200)"
proof -
  have e: "entry_texts sd (column, stats) = (column @ '':'') # map (stat_text sd) stats"
    by (simp add: entry_texts_def)
  have s: "stat_text sd (stat, JStr s) = ''  '' @ stat @ '': '' @ s"
    by (simp add: stat_text_def format_stat_def)
  have n: "stat_text sd (stat, JNum x) = ''  '' @ stat @ '': '' @ toFixed2 sd x"
    by (simp add: stat_text_def format_stat_def)
  from generatePDF_shape [OF assms, of sd] e s n
    two_decimals_toFixed2 [of x sd] toFixed2_small [of x sd] hundredths_nearest [of x]
  show ?thesis by blast
qed

theorem report_sections_in_order_witness:
  "square_matrix (correlations sample_analysis)
   \<and> correlations sample_analysis \<noteq> []
   \<and> (\<exists>doc. generatePDF shortest_1e21 sample_analysis = Inr doc
        \<and> headings 0 doc =
            [''Data Analysis Report'', ''Summary Statistics'', ''Column Types'', ''Missing Values'',
             ''Correlation Heatmap'']
        \<and> length (images doc) = 1)
   \<and> square_matrix (correlations mixed_analysis)
   \<and> correlations mixed_analysis = []
   \<and> (\<exists>doc. generatePDF shortest_1e21 mixed_analysis = Inr doc
        \<and> headings 0 doc =
            [''Data Analysis Report'', ''Summary Statistics'', ''Column Types'', ''Missing Values'']
        \<and> images doc = []
        \<and> texts doc =
            [''Data Analysis Report'', ''Summary Statistics'', ''n:'', ''  count: 3.00'',
             ''  mean: 2.00'', ''  std: 2.00'', ''  min: 0.00'', ''  25%: 1.00'', ''  50%: 2.00'',
             ''  75%: 3.00'', ''  max: 4.00'', ''Column Types'', ''n: float64'', ''t: object'',
             ''Missing Values'', ''n: 1'', ''t: 0''])
   \<and> \<bar>5 / 2 :: real\<bar> < 10 ^ 21
   \<and> stat_text shortest_1e21 (''75%'', JNum (5 / 2)) = ''  75%: 2.50''
   \<and> two_decimals ''2.50''"
proof -
  have sq: "square_matrix (correlations sample_analysis)"
    by (simp add: square_matrix_def sample_analysis_def)
  have c: "correlations sample_analysis \<noteq> []"
    by (simp add: sample_analysis_def)
  have sq': "square_matrix (correlations mixed_analysis)"
    by (simp add: square_matrix_def mixed_analysis_def)
  have c': "correlations mixed_analysis = []"
    by (simp add: mixed_analysis_def)
  have f: "toFixed2 shortest_1e21 (5 / 2) = ''2.50''"
    by (simp add: toFixed2_def hundredths_def digit_char_def show_nat.simps)
  have small: "\<bar>5 / 2 :: real\<bar> < 10 ^ 21"
    by simp
  have tx: "[''Data Analysis Report'', ''Summary Statistics'']
         @ concat (map (entry_texts shortest_1e21) (summary mixed_analysis))
         @ [''Column Types''] @ map (\<lambda>(column, type). column @ '': '' @ type) (column_types mixed_analysis)
         @ [''Missing Values'']
         @ map (\<lambda>(column, count). column @ '': '' @ show_nat count) (missing_values mixed_analysis)
         @ (if correlations mixed_analysis = [] then [] else [''Correlation Heatmap'']) =
            [''Data Analysis Report'', ''Summary Statistics'', ''n:'', ''  count: 3.00'',
             ''  mean: 2.00'', ''  std: 2.00'', ''  min: 0.00'', ''  25%: 1.00'', ''  50%: 2.00'',
             ''  75%: 3.00'', ''  max: 4.00'', ''Column Types'', ''n: float64'', ''t: object'',
             ''Missing Values'', ''n: 1'', ''t: 0'']"
    by (simp add: mixed_analysis_def entry_texts_def stat_text_def format_stat_def toFixed2_def
        hundredths_def digit_char_def show_nat.simps)
  note t = report_sections_in_order [OF sq, of shortest_1e21 "''a''" "[]" "''75%''" "[]" "5 / 2"]
  note t' = report_sections_in_order [OF sq', of shortest_1e21 "''a''" "[]" "''75%''" "[]" "5 / 2"]
  from t c obtain doc where doc: "generatePDF shortest_1e21 sample_analysis = Inr doc"
    and h: "headings 0 doc =
            [''Data Analysis Report'', ''Summary Statistics'', ''Column Types'', ''Missing Values'',
             ''Correlation Heatmap'']"
    and i: "length (images doc) = 1"
    by auto
  from t' c' obtain doc' where doc': "generatePDF shortest_1e21 mixed_analysis = Inr doc'"
    and h': "headings 0 doc' =
            [''Data Analysis Report'', ''Summary Statistics'', ''Column Types'', ''Missing Values'']"
    and i': "images doc' = []"
    and t'': "texts doc' = [''Data Analysis Report'', ''Summary Statistics'']
         @ concat (map (entry_texts shortest_1e21) (summary mixed_analysis))
         @ [''Column Types''] @ map (\<lambda>(column, type). column @ '': '' @ type) (column_types mixed_analysis)
         @ [''Missing Values'']
         @ map (\<lambda>(column, count). column @ '': '' @ show_nat count) (missing_values mixed_analysis)
         @ (if correlations mixed_analysis = [] then [] else [''Correlation Heatmap''])"
    by auto
  from t small have both: "stat_text shortest_1e21 (''75%'', JNum (5 / 2)) =
        ''  '' @ ''75%'' @ '': '' @ toFixed2 shortest_1e21 (5 / 2)
      \<and> two_decimals (toFixed2 shortest_1e21 (5 / 2))"
    by blast
  from both have st: "stat_text shortest_1e21 (''75%'', JNum (5 / 2)) = ''  75%: '' @ toFixed2 shortest_1e21 (5 / 2)"
    by simp
  from both have two: "two_decimals (toFixed2 shortest_1e21 (5 / 2))"
    by simp
  from sq c doc h i sq' c' doc' h' i' t'' [unfolded tx] small st [unfolded f] two [unfolded f]
  show ?thesis
    by (intro conjI exI [of _ doc] exI [of _ doc']) simp_all
qed

text \<open>
  The claim as stated fails from \<open>10\<^sup>2\<^sup>1\<close> on, where \<^verbatim>\<open>toFixed\<close> gives the exponent
  notation: for the one-column table with the value \<^verbatim>\<open>1e21\<close> in two rows the report
  reads \<^verbatim>\<open>mean: 1e+21\<close>.
\<close>

theorem large_statistic_not_two_decimals:
  "analyzeData float_parser [[(''x'', ''1e21'')], [(''x'', ''1e21'')]] =
     Inr \<lparr> summary =
             [(''x'', [(''count'', JNum 2), (''mean'', JNum (10 ^ 21)), (''std'', JNum 0),
                      (''min'', JNum (10 ^ 21)), (''25%'', JNum (10 ^ 21)), (''50%'', JNum (10 ^ 21)),
                      (''75%'', JNum (10 ^ 21)), (''max'', JNum (10 ^ 21))])],
           column_types = [(''x'', ''float64'')],
           missing_values = [(''x'', 0)],
           correlations = [] \<rparr>
   \<and> stat_text shortest_1e21 (''mean'', JNum (10 ^ 21)) = ''  mean: 1e+21''
   \<and> \<not> two_decimals ''1e+21''
   \<and> (\<forall>sd. \<not> two_decimals (toFixed2 sd (10 ^ 21)))"
proof -
  have "\<not> two_decimals (toFixed2 sd (10 ^ 21))" for sd
    by (rule toFixed2_large_not_two_decimals) simp
  then show ?thesis
    by (simp add: py_defs float_parser_def stat_text_def format_stat_def toFixed2_def
        toString_large_def shortest_1e21_def show_nat.simps digit_char_def two_decimals_def is_digit_def)
qed

section \<open>Heatmap cells\<close>

text \<open>
  C8. For a coefficient \<open>v\<close> in \<open>[-1, 1]\<close>, entry \<open>(i, j)\<close> of a square matrix: the colour of its
  cell is the string \<^verbatim>\<open>rgb(r,g,b)\<close> with \<open>r = g = \<lfloor>fl (255 * fl (1 - |v|))\<rfloor>\<close> and \<open>b = 255\<close>; it
  is the same for \<open>v\<close> and \<open>- v\<close>, it depends on \<open>|v|\<close> only. Red and green are the integer part
  of the rounded linear interpolation between the pale end (255, 255, 255) at \<open>|v| = 0\<close> and
  the saturated end (0, 0, 255) at \<open>|v| = 1\<close>: the rounded value is within \<open>510 / 2\<^sup>5\<^sup>3\<close> of
  \<open>(1 - |v|) * 255 + |v| * 0\<close>, the channels lie between 0 and 255, they do not grow with
  \<open>|v|\<close>, and blue is constant. \<^verbatim>\<open>createCorrelationHeatmap\<close> returns a drawing, in which
  drawing number \<open>2 * (i * n + j)\<close> is the square of the cell at \<open>(80 + i * cell, 50 + j * cell)\<close>,
  filled with that colour, and the next drawing writes the coefficient in black over the
  middle of the cell, centred both ways, with exactly two decimals, as the nearest
  hundredth.
\<close>

theorem heatmap_cell_colour_and_text:
  assumes "square_matrix corrs" and "i < length corrs" and "j < length corrs"
    and "lookup2 corrs (fst (corrs ! i)) (fst (corrs ! j)) = Some v" and "\<bar>v\<bar> \<le> 1"
  shows "getCorrelationColor (- v) = getCorrelationColor v
       \<and> getCorrelationColor v = getCorrelationColor \<bar>v\<bar>
       \<and> getCorrelationColor v =
           ''rgb('' @ show_int \<lfloor>fl (255 * fl (1 - \<bar>v\<bar>))\<rfloor> @ '','' @
             show_int \<lfloor>fl (255 * fl (1 - \<bar>v\<bar>))\<rfloor> @ '','' @ show_int 255 @ '')''
       \<and> channels v = (\<lfloor>fl (255 * fl (1 - \<bar>v\<bar>))\<rfloor>, \<lfloor>fl (255 * fl (1 - \<bar>v\<bar>))\<rfloor>, 255)
       \<and> \<bar>fl (255 * fl (1 - \<bar>v\<bar>)) - ((1 - \<bar>v\<bar>) * 255 + \<bar>v\<bar> * 0)\<bar> \<le> 510 / 2 ^ 53
       \<and> 0 \<le> fst (channels v) \<and> fst (channels v) \<le> 255
       \<and> channels 0 = (255, 255, 255) \<and> channels 1 = (0, 0, 255) \<and> channels (- 1) = (0, 0, 255)
       \<and> (\<bar>v\<bar> \<le> \<bar>w\<bar> \<and> \<bar>w\<bar> \<le> 1 \<longrightarrow> fst (channels w) \<le> fst (channels v)
             \<and> fst (snd (channels w)) \<le> fst (snd (channels v))
             \<and> snd (snd (channels w)) = snd (snd (channels v)))
       \<and> (\<exists>img. createCorrelationHeatmap sd corrs = Inr img
             \<and> 2 * (i * length corrs + j) + 1 < length img
             \<and> (\<exists>st. img ! (2 * (i * length corrs + j)) =
                        FillRect st (80 + real i * cellSize (length corrs))
                          (50 + real j * cellSize (length corrs))
                          (cellSize (length corrs)) (cellSize (length corrs))
                    \<and> fillStyle st = getCorrelationColor v \<and> transforms st = [])
             \<and> img ! (2 * (i * length corrs + j) + 1) =
                 FillText \<lparr> fillStyle = ''black'', font = ''10px Arial'', textAlign = ''center'',
                            textBaseline = ''middle'', transforms = [] \<rparr>
                   (toFixed2 sd v)
                   (80 + real i * cellSize (length corrs) + cellSize (length corrs) / 2)
                   (50 + real j * cellSize (length corrs) + cellSize (length corrs) / 2))
       \<and> toFixed2 sd v =
           (if v < 0 then ''-'' else []) @ show_nat (hundredths v div 100) @ ''.'' @
           [digit_char (hundredths v mod 100 div 10), digit_char (hundredths v mod 10)]
       \<and> two_decimals (toFixed2 sd v)
       \<and> \<bar>real (hundredths v) / 100 - \<bar>v\<bar>\<bar> \<le> 1 / 200"
proof -
  have small: "\<bar>v\<bar> < 10 ^ 21"
    using assms(5) by (rule le_less_trans) simp
  have a: "getCorrelationColor (- v) = getCorrelationColor v"
    using color_abs [of "- v"] color_abs [of v] by simp
  have s: "getCorrelationColor v =
           ''rgb('' @ show_int \<lfloor>fl (255 * fl (1 - \<bar>v\<bar>))\<rfloor> @ '','' @
             show_int \<lfloor>fl (255 * fl (1 - \<bar>v\<bar>))\<rfloor> @ '','' @ show_int 255 @ '')''"
    by (simp add: getCorrelationColor_def channels_def)
  have b: "channels v = (\<lfloor>fl (255 * fl (1 - \<bar>v\<bar>))\<rfloor>, \<lfloor>fl (255 * fl (1 - \<bar>v\<bar>))\<rfloor>, 255)"
    by (simp add: channels_def)
  have l: "\<bar>fl (255 * fl (1 - \<bar>v\<bar>)) - ((1 - \<bar>v\<bar>) * 255 + \<bar>v\<bar> * 0)\<bar> \<le> 510 / 2 ^ 53"
    using red_near_linear [OF assms(5)] by (simp add: mult.commute)
  have r: "0 \<le> fst (channels v) \<and> fst (channels v) \<le> 255"
    using red_range [OF assms(5)] by (simp add: channels_def floor_le_iff)
  have e: "channels 0 = (255, 255, 255) \<and> channels 1 = (0, 0, 255) \<and> channels (- 1) = (0, 0, 255)"
  proof -
    have "fl 0 = 0" by (simp add: fl_def)
    then show ?thesis by (simp add: channels_def fl_1 fl_255)
  qed
  have m: "\<bar>v\<bar> \<le> \<bar>w\<bar> \<and> \<bar>w\<bar> \<le> 1 \<longrightarrow> fst (channels w) \<le> fst (channels v)
             \<and> fst (snd (channels w)) \<le> fst (snd (channels v))
             \<and> snd (snd (channels w)) = snd (snd (channels v))"
    using channels_mono [of v w] by blast
  from heatmap_total [OF assms(1)] obtain img where img: "createCorrelationHeatmap sd corrs = Inr img" ..
  from heatmap_cells [OF img assms(2,3)] assms(4)
  have d: "2 * (i * length corrs + j) + 1 < length img
             \<and> (\<exists>st. img ! (2 * (i * length corrs + j)) =
                        FillRect st (80 + real i * cellSize (length corrs))
                          (50 + real j * cellSize (length corrs))
                          (cellSize (length corrs)) (cellSize (length corrs))
                    \<and> fillStyle st = getCorrelationColor v \<and> transforms st = [])
             \<and> img ! (2 * (i * length corrs + j) + 1) =
                 FillText \<lparr> fillStyle = ''black'', font = ''10px Arial'', textAlign = ''center'',
                            textBaseline = ''middle'', transforms = [] \<rparr>
                   (toFixed2 sd v)
                   (80 + real i * cellSize (length corrs) + cellSize (length corrs) / 2)
                   (50 + real j * cellSize (length corrs) + cellSize (length corrs) / 2)"
    by (auto simp: cell_block_def cell_text_style_def)
  note t = toFixed2_small [OF small, of sd]
  note two = two_decimals_toFixed2 [OF small, of sd]
  note near = hundredths_nearest [of v]
  from a color_abs [of v] s b l r e m img d t two near show ?thesis
    by blast
qed

theorem heatmap_cell_colour_and_text_witness:
  "square_matrix [(''a'', [(''a'', 1), (''b'', 3602879701896397 / 2 ^ 54)]),
                  (''b'', [(''a'', 3602879701896397 / 2 ^ 54 :: real), (''b'', 1)])]
   \<and> lookup2 [(''a'', [(''a'', 1), (''b'', 3602879701896397 / 2 ^ 54)]),
              (''b'', [(''a'', 3602879701896397 / 2 ^ 54 :: real), (''b'', 1)])] ''a'' ''b''
        = Some (3602879701896397 / 2 ^ 54)
   \<and> \<bar>3602879701896397 / 2 ^ 54 :: real\<bar> \<le> 1
   \<and> \<bar>3602879701896397 / 2 ^ 54 :: real\<bar> \<le> \<bar>1\<bar> \<and> \<bar>1 :: real\<bar> \<le> 1
   \<and> getCorrelationColor (- (3602879701896397 / 2 ^ 54)) = ''rgb(204,204,255)''
   \<and> getCorrelationColor (3602879701896397 / 2 ^ 54) = ''rgb(204,204,255)''
   \<and> channels (3602879701896397 / 2 ^ 54) = (204, 204, 255)
   \<and> fst (channels 1) \<le> fst (channels (3602879701896397 / 2 ^ 54))
   \<and> toFixed2 shortest_1e21 (3602879701896397 / 2 ^ 54) = ''0.20''
   \<and> two_decimals ''0.20''
   \<and> (\<exists>img st. createCorrelationHeatmap shortest_1e21
                  [(''a'', [(''a'', 1), (''b'', 3602879701896397 / 2 ^ 54)]),
                   (''b'', [(''a'', 3602879701896397 / 2 ^ 54), (''b'', 1)])] = Inr img
         \<and> 3 < length img
         \<and> img ! 2 = FillRect st 80 100 50 50
         \<and> fillStyle st = ''rgb(204,204,255)'' \<and> transforms st = []
         \<and> img ! 3 = FillText \<lparr> fillStyle = ''black'', font = ''10px Arial'',
                                 textAlign = ''center'', textBaseline = ''middle'',
                                 transforms = [] \<rparr> ''0.20'' 105 125)"
proof -
  let ?v = "3602879701896397 / 2 ^ 54 :: real"
  let ?m = "[(''a'', [(''a'', 1), (''b'', ?v)]), (''b'', [(''a'', ?v), (''b'', 1)])]"
  have sq: "square_matrix ?m"
    by (simp add: square_matrix_def)
  have l: "lookup2 ?m ''a'' ''b'' = Some ?v"
    by (simp add: lookup2_def)
  have l': "lookup2 ?m (fst (?m ! 0)) (fst (?m ! 1)) = Some ?v"
    by (simp add: lookup2_def)
  have unit: "\<bar>?v\<bar> \<le> 1"
    by simp
  have le: "\<bar>?v\<bar> \<le> \<bar>1\<bar> \<and> \<bar>1 :: real\<bar> \<le> 1"
    by simp
  have i0: "0 < length ?m" and j1: "1 < length ?m"
    by simp_all
  have c: "getCorrelationColor ?v = ''rgb(204,204,255)''"
    unfolding getCorrelationColor_def channels_def fl_one_minus_fifth fl_red_fifth
    by (simp add: show_int_def show_nat.simps digit_char_def)
  have ch: "channels ?v = (204, 204, 255)"
    unfolding channels_def fl_one_minus_fifth fl_red_fifth by simp
  have f: "toFixed2 shortest_1e21 ?v = ''0.20''"
    by (simp add: toFixed2_def hundredths_def digit_char_def show_nat.simps)
  have cs: "cellSize (length ?m) = 50"
    by (simp add: cellSize_def)
  note t = heatmap_cell_colour_and_text [OF sq i0 j1 l' unit, of 1 shortest_1e21]
  from t have sym: "getCorrelationColor (- ?v) = getCorrelationColor ?v"
    by blast
  from t le have mono: "fst (channels 1) \<le> fst (channels ?v)"
    by blast
  from t have two: "two_decimals (toFixed2 shortest_1e21 ?v)"
    by blast
  from t have "\<exists>img. createCorrelationHeatmap shortest_1e21 ?m = Inr img
             \<and> 2 * (0 * length ?m + 1) + 1 < length img
             \<and> (\<exists>st. img ! (2 * (0 * length ?m + 1)) =
                        FillRect st (80 + real 0 * cellSize (length ?m))
                          (50 + real 1 * cellSize (length ?m))
                          (cellSize (length ?m)) (cellSize (length ?m))
                    \<and> fillStyle st = getCorrelationColor ?v \<and> transforms st = [])
             \<and> img ! (2 * (0 * length ?m + 1) + 1) =
                 FillText \<lparr> fillStyle = ''black'', font = ''10px Arial'', textAlign = ''center'',
                            textBaseline = ''middle'', transforms = [] \<rparr>
                   (toFixed2 shortest_1e21 ?v)
                   (80 + real 0 * cellSize (length ?m) + cellSize (length ?m) / 2)
                   (50 + real 1 * cellSize (length ?m) + cellSize (length ?m) / 2)"
    by blast
  then have dc: "\<exists>img st. createCorrelationHeatmap shortest_1e21 ?m = Inr img
         \<and> 3 < length img
         \<and> img ! 2 = FillRect st 80 100 50 50
         \<and> fillStyle st = ''rgb(204,204,255)'' \<and> transforms st = []
         \<and> img ! 3 = FillText \<lparr> fillStyle = ''black'', font = ''10px Arial'',
                                 textAlign = ''center'', textBaseline = ''middle'',
                                 transforms = [] \<rparr> ''0.20'' 105 125"
    unfolding c f cs by (auto simp: numeral_3_eq_3)
  from sq l unit le sym [unfolded c] c ch mono f two [unfolded f] dc show ?thesis
    by (intro conjI) blast+
qed

section \<open>Heatmap cell size\<close>

lemma cellSize_below2:
  assumes "0 < b" shows "\<exists>k\<ge>2. cellSize k < b"
proof -
  from cellSize_below [OF assms] obtain k where k: "cellSize k < b" ..
  have "cellSize (max k 2) \<le> cellSize k" by (rule cellSize_antimono) simp
  with k have "cellSize (max k 2) < b" by simp
  then show ?thesis by (intro exI [of _ "max k 2"]) simp
qed

text \<open>
  C9, as amended. The cell size \<^verbatim>\<open>Math.min(500 / n, 50)\<close> does not grow with the number of
  columns \<open>n\<close>; it is positive and at most 50, it is 50 up to ten columns and \<open>500 / n\<close>
  from ten columns on; and it has no positive lower bound: below every positive size
  there is a cell size, for some number of columns from two on.
\<close>

theorem cellSize_shrinks_without_floor:
  "(m \<le> n \<longrightarrow> cellSize n \<le> cellSize m)
   \<and> 0 < cellSize n \<and> cellSize n \<le> 50
   \<and> (n \<le> 10 \<longrightarrow> cellSize n = 50)
   \<and> (10 \<le> n \<longrightarrow> cellSize n = 500 / real n)
   \<and> (0 < b \<longrightarrow> (\<exists>k\<ge>2. cellSize k < b))"
  using cellSize_antimono cellSize_pos cellSize_le_50 cellSize_small cellSize_large cellSize_below2
  by blast

theorem cellSize_shrinks_without_floor_witness:
  "cellSize 20 \<le> cellSize 2 \<and> cellSize 20 = 25 \<and> cellSize 2 = 50 \<and> (\<exists>k\<ge>2. cellSize k < 1)"
  using cellSize_shrinks_without_floor [of 2 20 1] cellSize_shrinks_without_floor [of 2 2 1]
  by simp

text \<open>
  The claim as stated fails: no positive size is a lower bound of the cell sizes; a
  thousand columns have cells of half a pixel.
\<close>

theorem cellSize_no_minimum:
  "cellSize 1000 = 1 / 2 \<and> \<not> (\<exists>b > 0. \<forall>n \<ge> 2. b \<le> cellSize n)"
proof
  show "cellSize 1000 = 1 / 2" by (simp add: cellSize_def)
  show "\<not> (\<exists>b > 0. \<forall>n \<ge> 2. b \<le> cellSize n)"
  proof
    assume "\<exists>b > 0. \<forall>n \<ge> 2. b \<le> cellSize n"
    then obtain b where "0 < b" and all: "\<forall>n \<ge> 2. b \<le> cellSize n" by blast
    from cellSize_below2 [OF \<open>0 < b\<close>] obtain k where "k \<ge> 2" "cellSize k < b" by blast
    with all show False by (auto simp: not_le [symmetric])
  qed
qed

section \<open>The correlation matrix\<close>



end
